theory Spec2Isabelle
  imports Main "HOL-Library.Sublist"
begin

section \<open>Error values, objects and the store\<close>

text \<open>
  A Go \<^verbatim>\<open>error\<close> is an interface value: \<^verbatim>\<open>nil\<close>, or a pointer to an object. Every error of
  the repository is created behind a pointer (\<^verbatim>\<open>errors.New\<close>, \<^verbatim>\<open>fmt.Errorf\<close>,
  \<^verbatim>\<open>&DatabaseError{...}\<close>, \<^verbatim>\<open>&ValidationError{...}\<close>), and \<^verbatim>\<open>==\<close> on two errors compares the
  pointers. The store maps addresses to objects, so that identity and sharing (and a
  cause chain that runs into itself) are what they are in the program.
\<close>

type_synonym addr = nat

datatype error = nil | Ptr addr

text \<open>The values \<^verbatim>\<open>ValidateUser\<close> stores in the \<^verbatim>\<open>interface{}\<close> field \<^verbatim>\<open>Value\<close>.\<close>

datatype any = AnyInt int | AnyString string

text \<open>\<^verbatim>\<open>database.DatabaseError\<close>; \<^typ>\<open>'t\<close> stands for \<^verbatim>\<open>time.Time\<close>.\<close>

record 't DatabaseError =
  Operation :: string
  Table :: string
  Query :: string
  Err :: error
  Timestamp :: 't
  Retryable :: bool

text \<open>\<^verbatim>\<open>custom.ValidationError\<close>.\<close>

record ValidationError =
  Field' :: string
  Message :: string
  Code :: int
  Value :: any

text \<open>
  The dynamic types an error pointer of this repository can have: \<^verbatim>\<open>*errors.errorString\<close>
  (made by \<^verbatim>\<open>errors.New\<close>), \<^verbatim>\<open>*fmt.wrapError\<close> (made by \<^verbatim>\<open>fmt.Errorf\<close> with one \<^verbatim>\<open>%w\<close>: the
  formatted message and the wrapped error), \<^verbatim>\<open>*DatabaseError\<close> and \<^verbatim>\<open>*ValidationError\<close>.
\<close>

datatype 't obj =
    errorString string
  | wrapError string error
  | DatabaseErrorObj "'t DatabaseError"
  | ValidationErrorObj ValidationError

text \<open>The memory, and the next address the allocator hands out.\<close>

record 't state =
  heap :: "addr \<Rightarrow> 't obj"
  nextAddr :: addr

text \<open>Allocation of a new object (\<^verbatim>\<open>&T{...}\<close>): a fresh address, the store extended.\<close>

definition new :: "'t obj \<Rightarrow> 't state \<Rightarrow> error \<times> 't state" where
  "new ob s =
     (Ptr (nextAddr s),
      s\<lparr>heap := (heap s)(nextAddr s := ob), nextAddr := Suc (nextAddr s)\<rparr>)"

section \<open>Formatting verbs\<close>

text \<open>
  \<^verbatim>\<open>%d\<close> of an \<^verbatim>\<open>int\<close>: decimal digits, a minus sign before a negative number. (Go's \<^verbatim>\<open>int\<close>
  has 64 bits; the repository only compares and prints its integers, so they are
  modelled by \<^typ>\<open>int\<close>.)
\<close>

fun decimal :: "nat \<Rightarrow> string" where
  "decimal n =
     (if n < 10 then [''0123456789'' ! n]
      else decimal (n div 10) @ [''0123456789'' ! (n mod 10)])"

declare decimal.simps [simp del]

definition fmt_d :: "int \<Rightarrow> string" where
  "fmt_d i = (if i < 0 then CHR ''-'' # decimal (nat (- i)) else decimal (nat i))"

text \<open>\<^verbatim>\<open>%v\<close> of a \<^verbatim>\<open>bool\<close>.\<close>

definition fmt_bool :: "bool \<Rightarrow> string" where
  "fmt_bool b = (if b then ''true'' else ''false'')"

text \<open>\<^verbatim>\<open>%v\<close> of the \<^verbatim>\<open>interface{}\<close> value of a \<^verbatim>\<open>ValidationError\<close>.\<close>

definition fmt_any :: "any \<Rightarrow> string" where
  "fmt_any v = (case v of AnyInt i \<Rightarrow> fmt_d i | AnyString s \<Rightarrow> s)"

text \<open>The layout constant \<^verbatim>\<open>time.RFC3339\<close>.\<close>

definition RFC3339 :: string where
  "RFC3339 = ''2006-01-02T15:04:05Z07:00''"

section \<open>The \<^verbatim>\<open>Error\<close> methods\<close>

text \<open>
  \<^verbatim>\<open>ValidationError.Error\<close>:
  \<^verbatim>\<open>Sprintf("Validation error on field '%s': %s (code: %d, value: %v)", ...)\<close>.
\<close>

definition ValidationError_Error :: "ValidationError \<Rightarrow> string" where
  "ValidationError_Error e =
     ''Validation error on field '' @ [CHR 0x27] @ Field' e @ [CHR 0x27] @ '': '' @ Message e
       @ '' (code: '' @ fmt_d (Code e) @ '', value: '' @ fmt_any (Value e) @ '')''"

text \<open>
  The \<^verbatim>\<open>Sprintf\<close> of \<^verbatim>\<open>DatabaseError.Error\<close>, given the text \<^verbatim>\<open>%v\<close> produced for \<^verbatim>\<open>e.Err\<close>.
  \<^verbatim>\<open>Time.Format\<close> belongs to the standard library: it is the parameter \<open>Format\<close>, applied
  to the timestamp and the layout as the source applies it.
\<close>

definition DatabaseError_Sprintf ::
  "('t \<Rightarrow> string \<Rightarrow> string) \<Rightarrow> 't DatabaseError \<Rightarrow> string \<Rightarrow> string" where
  "DatabaseError_Sprintf Format e errText =
     ''database error ['' @ Operation e @ '' on '' @ Table e @ '']: '' @ errText
       @ '' (retryable: '' @ fmt_bool (Retryable e)
       @ '', timestamp: '' @ Format (Timestamp e) RFC3339 @ '')''"

text \<open>
  \<^verbatim>\<open>err.Error()\<close> on a non-nil error, dispatched on the dynamic type. An \<^verbatim>\<open>errorString\<close>
  returns its text and a \<^verbatim>\<open>wrapError\<close> the message built when it was made.
  \<^verbatim>\<open>DatabaseError.Error\<close> formats \<^verbatim>\<open>e.Err\<close> with \<^verbatim>\<open>%v\<close>: \<^verbatim>\<open><nil>\<close> for a nil error, the
  result of \<^verbatim>\<open>e.Err.Error()\<close> otherwise. That call recurses along the \<^verbatim>\<open>Err\<close> fields,
  and does not return when they lead back to the same object: \<open>None\<close> is "no result".
\<close>

partial_function (option) Error ::
  "('t \<Rightarrow> string \<Rightarrow> string) \<Rightarrow> (addr \<Rightarrow> 't obj) \<Rightarrow> addr \<Rightarrow> string option" where
  "Error Format h a =
     (case h a of
        errorString s \<Rightarrow> Some s
      | wrapError msg err \<Rightarrow> Some msg
      | ValidationErrorObj v \<Rightarrow> Some (ValidationError_Error v)
      | DatabaseErrorObj e \<Rightarrow>
          (case Err e of
             nil \<Rightarrow> Some (DatabaseError_Sprintf Format e ''<nil>'')
           | Ptr b \<Rightarrow>
               Option.bind (Error Format h b)
                 (\<lambda>t. Some (DatabaseError_Sprintf Format e t))))"

text \<open>\<^verbatim>\<open>%v\<close> of an error operand.\<close>

definition fmt_v ::
  "('t \<Rightarrow> string \<Rightarrow> string) \<Rightarrow> (addr \<Rightarrow> 't obj) \<Rightarrow> error \<Rightarrow> string option" where
  "fmt_v Format h err = (case err of nil \<Rightarrow> Some ''<nil>'' | Ptr b \<Rightarrow> Error Format h b)"

section \<open>Unwrapping\<close>

text \<open>
  The method sets: \<^verbatim>\<open>*DatabaseError\<close> and \<^verbatim>\<open>*fmt.wrapError\<close> have an \<^verbatim>\<open>Unwrap() error\<close>
  method, \<^verbatim>\<open>*errors.errorString\<close> and \<^verbatim>\<open>*ValidationError\<close> have none.
\<close>

definition DatabaseError_Unwrap :: "'t DatabaseError \<Rightarrow> error" where
  "DatabaseError_Unwrap e = Err e"

fun has_Unwrap :: "'t obj \<Rightarrow> bool" where
  "has_Unwrap (errorString s) = False"
| "has_Unwrap (wrapError msg err) = True"
| "has_Unwrap (DatabaseErrorObj e) = True"
| "has_Unwrap (ValidationErrorObj v) = False"

fun Unwrap :: "'t obj \<Rightarrow> error" where
  "Unwrap (wrapError msg err) = err"
| "Unwrap (DatabaseErrorObj e) = DatabaseError_Unwrap e"
| "Unwrap (errorString s) = nil"
| "Unwrap (ValidationErrorObj v) = nil"

text \<open>
  (The last two equations make \<open>Unwrap\<close> total; the program cannot call the method on
  these types, and the model calls it only after \<open>has_Unwrap\<close>.)
\<close>

text \<open>
  \<^verbatim>\<open>database.Unwramp\<close>: the type assertion \<^verbatim>\<open>err.(unwrapper)\<close> fails on a nil interface and
  on a dynamic type without the method.
\<close>

definition Unwramp :: "(addr \<Rightarrow> 't obj) \<Rightarrow> error \<Rightarrow> error" where
  "Unwramp h err =
     (case err of
        nil \<Rightarrow> nil
      | Ptr a \<Rightarrow> if has_Unwrap (h a) then Unwrap (h a) else nil)"

section \<open>Creating errors\<close>

text \<open>\<^verbatim>\<open>errors.New(text)\<close>: a new \<^verbatim>\<open>errorString\<close> object at every call.\<close>

definition errors_New :: "string \<Rightarrow> 't state \<Rightarrow> error \<times> 't state" where
  "errors_New text s = new (errorString text) s"

text \<open>
  \<^verbatim>\<open>fmt.Errorf(pre + "%w", err)\<close> for a non-nil \<open>err\<close>: every format string of the
  repository that wraps ends in its single \<^verbatim>\<open>%w\<close>, so the message is the formatted text
  before the verb followed by \<^verbatim>\<open>err.Error()\<close>, and the result is a new \<^verbatim>\<open>wrapError\<close>
  holding the message and \<open>err\<close>. No result when \<^verbatim>\<open>err.Error()\<close> gives none.
\<close>

definition fmt_Errorf_w ::
  "('t \<Rightarrow> string \<Rightarrow> string) \<Rightarrow> string \<Rightarrow> error \<Rightarrow> 't state \<Rightarrow> (error \<times> 't state) option" where
  "fmt_Errorf_w Format pre err s =
     Option.bind (fmt_v Format (heap s) err)
       (\<lambda>t. Some (new (wrapError (pre @ t) err) s))"

subsection \<open>The sentinels of package \<^verbatim>\<open>utils\<close>\<close>

text \<open>
  The package-level variables are initialised once, in the order of their declaration,
  each by its own \<^verbatim>\<open>errors.New\<close>: in the state after initialisation they are the first
  five objects.
\<close>

definition ErrUserNotFound :: error where "ErrUserNotFound = Ptr 0"
definition ErrDuplicateEmail :: error where "ErrDuplicateEmail = Ptr 1"
definition ErrInvalidPassword :: error where "ErrInvalidPassword = Ptr 2"
definition ErrUnauthorized :: error where "ErrUnauthorized = Ptr 3"
definition ErrDatabaseTimeout :: error where "ErrDatabaseTimeout = Ptr 4"

definition empty_state :: "'t state" where
  "empty_state = \<lparr>heap = (\<lambda>a. errorString []), nextAddr = 0\<rparr>"

definition utils_init :: "'t state" where
  "utils_init =
     (let s0 = empty_state;
          (e0, s1) = errors_New ''user not found'' s0;
          (e1, s2) = errors_New ''email already exists'' s1;
          (e2, s3) = errors_New ''invalid password'' s2;
          (e3, s4) = errors_New ''unauthorized access'' s3;
          (e4, s5) = errors_New ''database operation timed out'' s4
      in s5)"

definition sentinels :: "error list" where
  "sentinels =
     [ErrUserNotFound, ErrDuplicateEmail, ErrInvalidPassword, ErrUnauthorized,
      ErrDatabaseTimeout]"

text \<open>A state of the running program: the sentinels are where initialisation put them.\<close>

definition sentinels_installed :: "'t state \<Rightarrow> bool" where
  "sentinels_installed s =
     (5 \<le> nextAddr s
      \<and> heap s 0 = errorString ''user not found''
      \<and> heap s 1 = errorString ''email already exists''
      \<and> heap s 2 = errorString ''invalid password''
      \<and> heap s 3 = errorString ''unauthorized access''
      \<and> heap s 4 = errorString ''database operation timed out'')"

text \<open>
  Go is memory safe: no allocated object refers to memory that is not allocated yet.
\<close>

definition below :: "addr \<Rightarrow> error \<Rightarrow> bool" where
  "below n err = (case err of nil \<Rightarrow> True | Ptr b \<Rightarrow> b < n)"

definition closed :: "'t state \<Rightarrow> bool" where
  "closed s = list_all (\<lambda>a. below (nextAddr s) (Unwrap (heap s a))) [0..<nextAddr s]"

section \<open>Package \<^verbatim>\<open>user\<close>\<close>

record User =
  ID :: int
  Email :: string
  Age :: int

text \<open>\<^verbatim>\<open>ValidateUser\<close>: the first failing check allocates its \<^verbatim>\<open>ValidationError\<close>.\<close>

definition ValidateUser :: "User \<Rightarrow> 't state \<Rightarrow> error \<times> 't state" where
  "ValidateUser user s =
     (if Age user < 0 then
        new (ValidationErrorObj
          \<lparr>Field' = ''Age'', Message = ''Age cannot be negative'',
           Code = 2001, Value = AnyInt (Age user)\<rparr>) s
      else if Age user > 130 then
        new (ValidationErrorObj
          \<lparr>Field' = ''Age'', Message = ''Age cannot be greater than 130'',
           Code = 2002, Value = AnyInt (Age user)\<rparr>) s
      else if Email user = [] then
        new (ValidationErrorObj
          \<lparr>Field' = ''Email'', Message = ''Email cannot be empty'',
           Code = 2003, Value = AnyString (Email user)\<rparr>) s
      else (nil, s))"

text \<open>\<^verbatim>\<open>FindUserByEmail\<close>: the \<^verbatim>\<open>*User\<close> it returns is always nil (\<open>None\<close>).\<close>

definition FindUserByEmail ::
  "('t \<Rightarrow> string \<Rightarrow> string) \<Rightarrow> string \<Rightarrow> 't state
     \<Rightarrow> ((User option \<times> error) \<times> 't state) option" where
  "FindUserByEmail Format email s =
     (if email = [] then
        Option.bind (fmt_Errorf_w Format ''email cannot be empty: '' ErrUserNotFound s)
          (\<lambda>(err, s'). Some ((None, err), s'))
      else Some ((None, ErrUserNotFound), s))"

text \<open>
  \<^verbatim>\<open>QueryUsers\<close>: the operands of the composite literal are evaluated in order (the
  query text, \<^verbatim>\<open>errors.New\<close>, \<^verbatim>\<open>time.Now()\<close>, whose reading is the parameter \<open>now\<close>), then
  the \<^verbatim>\<open>DatabaseError\<close> is allocated.
\<close>

definition QueryUsers :: "int \<Rightarrow> 't \<Rightarrow> 't state \<Rightarrow> error \<times> 't state" where
  "QueryUsers limit now s =
     (let query = ''SELECT * FROM users LIMIT '' @ fmt_d limit;
          (err, s1) = errors_New ''connection timeout'' s
      in new (DatabaseErrorObj
           \<lparr>Operation = ''SELECT'', Table = ''users'', Query = query, Err = err,
            Timestamp = now, Retryable = True\<rparr>) s1)"

section \<open>Package \<^verbatim>\<open>wrapping\<close>\<close>

text \<open>
  \<^verbatim>\<open>os.ReadFile\<close> is the environment: \<open>ReadFile\<close> gives, for a file name, the error the
  call returns (\<open>nil\<close> when the file can be read), an error that is in the store already.
\<close>

definition readConfigFile ::
  "('t \<Rightarrow> string \<Rightarrow> string) \<Rightarrow> (string \<Rightarrow> error) \<Rightarrow> string \<Rightarrow> 't state
     \<Rightarrow> (error \<times> 't state) option" where
  "readConfigFile Format ReadFile filename s =
     (let err = ReadFile filename
      in if err \<noteq> nil then
           fmt_Errorf_w Format (''failed to read config file '' @ filename @ '': '') err s
         else Some (nil, s))"

definition loadUserConfig ::
  "('t \<Rightarrow> string \<Rightarrow> string) \<Rightarrow> (string \<Rightarrow> error) \<Rightarrow> int \<Rightarrow> 't state
     \<Rightarrow> (error \<times> 't state) option" where
  "loadUserConfig Format ReadFile userID s =
     (let filename = ''user_'' @ fmt_d userID @ ''.json''
      in Option.bind (readConfigFile Format ReadFile filename s)
           (\<lambda>(err, s').
              if err \<noteq> nil then
                fmt_Errorf_w Format
                  (''failed to load config for user '' @ fmt_d userID @ '': '') err s'
              else Some (nil, s')))"

definition ProcessUserData ::
  "('t \<Rightarrow> string \<Rightarrow> string) \<Rightarrow> (string \<Rightarrow> error) \<Rightarrow> int \<Rightarrow> 't state
     \<Rightarrow> (error \<times> 't state) option" where
  "ProcessUserData Format ReadFile userID s =
     Option.bind (loadUserConfig Format ReadFile userID s)
       (\<lambda>(err, s').
          if err \<noteq> nil then
            fmt_Errorf_w Format (''failed to process user '' @ fmt_d userID @ '': '') err s'
          else Some (nil, s'))"

section \<open>Walking a chain\<close>

text \<open>
  The loop of \<^verbatim>\<open>TestErrorChain_UnwrapBehavior\<close> (the specification's \<^verbatim>\<open>WalkChain\<close>): while
  the current error is not nil, append its text to \<open>levels\<close>, then follow \<^verbatim>\<open>Unwrap\<close> when
  the error has the method and leave the loop when it has not. Nothing bounds the
  number of rounds.
\<close>

partial_function (option) WalkChain ::
  "('t \<Rightarrow> string \<Rightarrow> string) \<Rightarrow> (addr \<Rightarrow> 't obj) \<Rightarrow> error \<Rightarrow> string list
     \<Rightarrow> string list option" where
  "WalkChain Format h currentErr levels =
     (case currentErr of
        nil \<Rightarrow> Some levels
      | Ptr a \<Rightarrow>
          Option.bind (Error Format h a)
            (\<lambda>t. if has_Unwrap (h a)
                  then WalkChain Format h (Unwrap (h a)) (levels @ [t])
                  else Some (levels @ [t])))"

text \<open>
  The loop of \<^verbatim>\<open>TestProcessUserData_ErrorChain\<close>: it counts the rounds in \<open>depth\<close> and
  leaves with a failure (\<^verbatim>\<open>t.Error("Error chain too deep, possible infinite loop")\<close>, the
  second component) once the count exceeds 10.
\<close>

function ErrorChain_depth :: "(addr \<Rightarrow> 't obj) \<Rightarrow> error \<Rightarrow> nat \<Rightarrow> nat \<times> bool" where
  "ErrorChain_depth h nil depth = (depth, False)"
| "ErrorChain_depth h (Ptr a) depth =
     (if depth + 1 > 10 then (depth + 1, True)
      else if has_Unwrap (h a) then ErrorChain_depth h (Unwrap (h a)) (depth + 1)
      else (depth + 1, False))"
  by pat_completeness auto
termination
  by (relation "measure (\<lambda>(h, err, depth). 11 - depth)") auto

section \<open>Matching and extraction\<close>

text \<open>
  Modelled from the spec: \<^verbatim>\<open>MatchesSentinel(err, target)\<close> (4.2), the standard library's
  \<^verbatim>\<open>errors.Is\<close>, whose source is not in the repository. It walks the chain with the
  traversal of \<^verbatim>\<open>WalkChain\<close> and reports whether an element is reference-identical to
  \<open>target\<close>. As in \<^verbatim>\<open>errors.Is\<close>, a nil \<open>err\<close> or \<open>target\<close> match only each other.
\<close>

partial_function (option) chain_has ::
  "(addr \<Rightarrow> 't obj) \<Rightarrow> error \<Rightarrow> error \<Rightarrow> bool option" where
  "chain_has h err target =
     (if err = target then Some True
      else case err of
        nil \<Rightarrow> Some False
      | Ptr a \<Rightarrow> if has_Unwrap (h a) then chain_has h (Unwrap (h a)) target else Some False)"

definition MatchesSentinel :: "(addr \<Rightarrow> 't obj) \<Rightarrow> error \<Rightarrow> error \<Rightarrow> bool option" where
  "MatchesSentinel h err target =
     (if err = nil \<or> target = nil then Some (err = target) else chain_has h err target)"

text \<open>
  Modelled from the spec: \<^verbatim>\<open>ExtractTyped(err)\<close> (4.2), the standard library's \<^verbatim>\<open>errors.As\<close>
  with a \<^verbatim>\<open>*DatabaseError\<close> target, whose source is not in the repository. It walks the
  chain and returns the first element that is a \<^verbatim>\<open>DatabaseError\<close>, or absent (\<open>nil\<close>) if
  none is.
\<close>

fun is_DatabaseError :: "'t obj \<Rightarrow> bool" where
  "is_DatabaseError (DatabaseErrorObj e) = True"
| "is_DatabaseError ob = False"

partial_function (option) ExtractTyped ::
  "(addr \<Rightarrow> 't obj) \<Rightarrow> error \<Rightarrow> error option" where
  "ExtractTyped h err =
     (case err of
        nil \<Rightarrow> Some nil
      | Ptr a \<Rightarrow>
          if is_DatabaseError (h a) then Some (Ptr a)
          else if has_Unwrap (h a) then ExtractTyped h (Unwrap (h a))
          else Some nil)"

declare Error.simps [code] WalkChain.simps [code] chain_has.simps [code]
  ExtractTyped.simps [code]

section \<open>The \<^verbatim>\<open>Error\<close> call as a step of the program\<close>

text \<open>
  \<^verbatim>\<open>err.Error()\<close> in state-passing form: the call receives the state and returns the text
  with the state it leaves behind. \<^verbatim>\<open>DatabaseError.Error\<close> reads its fields, and \<^verbatim>\<open>Sprintf\<close>
  then calls \<^verbatim>\<open>e.Err.Error()\<close> for the \<^verbatim>\<open>%v\<close> verb: the state that call leaves behind is
  the state \<^verbatim>\<open>e.Error()\<close> returns. The other three methods return a stored or a formatted
  text. No body contains an assignment, so no equation writes to the store.
\<close>

partial_function (option) Error_st ::
  "('t \<Rightarrow> string \<Rightarrow> string) \<Rightarrow> addr \<Rightarrow> 't state \<Rightarrow> (string \<times> 't state) option" where
  "Error_st Format a s =
     (case heap s a of
        errorString t \<Rightarrow> Some (t, s)
      | wrapError msg err \<Rightarrow> Some (msg, s)
      | ValidationErrorObj v \<Rightarrow> Some (ValidationError_Error v, s)
      | DatabaseErrorObj e \<Rightarrow>
          (case Err e of
             nil \<Rightarrow> Some (DatabaseError_Sprintf Format e ''<nil>'', s)
           | Ptr b \<Rightarrow>
               Option.bind (Error_st Format b s)
                 (\<lambda>(t, s1). Some (DatabaseError_Sprintf Format e t, s1))))"

declare Error_st.simps [code]

section \<open>Calls made by the tests and by callers\<close>

text \<open>
  \<^verbatim>\<open>TestSentinelErrors_InWrappedChain\<close> wraps a sentinel layer by layer,
  \<^verbatim>\<open>level1 := fmt.Errorf("database layer: %w", baseErr)\<close> and so on; \<open>wrap_layers\<close> does so
  for any list of context texts, innermost first.
\<close>

fun wrap_layers ::
  "('t \<Rightarrow> string \<Rightarrow> string) \<Rightarrow> string list \<Rightarrow> error \<Rightarrow> 't state
     \<Rightarrow> (error \<times> 't state) option" where
  "wrap_layers Format [] err s = Some (err, s)"
| "wrap_layers Format (c # cs) err s =
     Option.bind (fmt_Errorf_w Format c err s) (\<lambda>(err', s'). wrap_layers Format cs err' s')"

text \<open>
  \<^verbatim>\<open>strings.Contains\<close>, with which the tests look for a component in a rendered error.
\<close>

fun strings_Contains :: "string \<Rightarrow> string \<Rightarrow> bool" where
  "strings_Contains [] substr = (substr = [])"
| "strings_Contains (c # s) substr = (prefix substr (c # s) \<or> strings_Contains s substr)"

text \<open>
  The messages of the layers that \<open>wrap_layers\<close> puts around an error whose text is \<open>t\<close>,
  outermost first.
\<close>

fun layer_texts :: "string list \<Rightarrow> string \<Rightarrow> string list" where
  "layer_texts [] t = []"
| "layer_texts (c # cs) t = layer_texts cs (c @ t) @ [c @ t]"

section \<open>Example values\<close>

text \<open>
  For the examples a \<^verbatim>\<open>time.Time\<close> is given by its RFC3339 text, which \<open>Format\<close> returns.
\<close>

definition ex_Format :: "string \<Rightarrow> string \<Rightarrow> string" where
  "ex_Format t layout = t"

definition ex_time :: string where
  "ex_time = ''2023-10-05T10:30:00Z''"

text \<open>The state after \<^verbatim>\<open>QueryUsers(10)\<close>, run right after initialisation.\<close>

definition ex_query_state :: "string state" where
  "ex_query_state = snd (QueryUsers 10 ex_time utils_init)"

text \<open>A store whose object 0 is a \<^verbatim>\<open>DatabaseError\<close> with \<^verbatim>\<open>e.Err = e\<close>.\<close>

definition ex_cyclic :: "addr \<Rightarrow> string obj" where
  "ex_cyclic =
     (\<lambda>a. errorString [])
       (0 := DatabaseErrorObj
          \<lparr>Operation = ''SELECT'', Table = ''users'', Query = [], Err = Ptr 0,
           Timestamp = ex_time, Retryable = True\<rparr>)"

text \<open>
  States in which the operating system has reported a missing file, and the \<^verbatim>\<open>os.ReadFile\<close>
  that returns the report. In the first the report is a single leaf error, object 5. In
  the second it has a cause, as the \<^verbatim>\<open>*fs.PathError\<close> of the real call has: object 6 is
  the report and object 5 its cause.
\<close>

definition ex_leaf_state :: "string state" where
  "ex_leaf_state =
     snd (errors_New ''open user_999.json: no such file or directory'' utils_init)"

definition ex_leaf_ReadFile :: "string \<Rightarrow> error" where
  "ex_leaf_ReadFile filename = Ptr 5"

definition ex_os_state :: "string state" where
  "ex_os_state =
     (let (e, s1) = errors_New ''no such file or directory'' utils_init
      in snd (new (wrapError ''open user_999.json: no such file or directory'' e) s1))"

definition ex_os_ReadFile :: "string \<Rightarrow> error" where
  "ex_os_ReadFile filename = Ptr 6"

text \<open>The error of \<^verbatim>\<open>QueryUsers(10)\<close> wrapped once more, as a caller would.\<close>

definition ex_wrapped_state :: "string state" where
  "ex_wrapped_state =
     (case fmt_Errorf_w ex_Format ''list users: '' (Ptr 6) ex_query_state of
        Some (err, s) \<Rightarrow> s
      | None \<Rightarrow> ex_query_state)"

text \<open>The result of \<^verbatim>\<open>ProcessUserData(999)\<close> when the report is the single leaf error.\<close>

definition ex_processed :: "error \<times> string state" where
  "ex_processed =
     (case ProcessUserData ex_Format ex_leaf_ReadFile 999 ex_leaf_state of
        Some r \<Rightarrow> r
      | None \<Rightarrow> (nil, ex_leaf_state))"

text \<open>
  A \<^verbatim>\<open>DatabaseError\<close> that is retryable and whose \<^verbatim>\<open>Operation\<close> is the text
  \<^verbatim>\<open>retryable: false\<close>, made right after initialisation: object 6, its cause object 5.
\<close>

definition ex_flag_state :: "string state" where
  "ex_flag_state =
     (let (err, s1) = errors_New ''connection timeout'' utils_init
      in snd (new (DatabaseErrorObj
           \<lparr>Operation = ''retryable: false'', Table = ''users'', Query = ''SELECT 1'',
            Err = err, Timestamp = ex_time, Retryable = True\<rparr>) s1))"

section \<open>Rendering\<close>

lemma Error_DatabaseError:
  "h a = DatabaseErrorObj e \<Longrightarrow>
   Error Format h a = map_option (DatabaseError_Sprintf Format e) (fmt_v Format h (Err e))"
  by (subst Error.simps) (simp add: fmt_v_def map_option_case split: error.splits option.splits)

lemma Error_errorString: "h a = errorString t \<Longrightarrow> Error Format h a = Some t"
  by (subst Error.simps) simp

lemma Error_wrapError: "h a = wrapError m c \<Longrightarrow> Error Format h a = Some m"
  by (subst Error.simps) simp

lemma Error_ValidationError:
  "h a = ValidationErrorObj v \<Longrightarrow> Error Format h a = Some (ValidationError_Error v)"
  by (subst Error.simps) simp

lemmas ex_defs =
  utils_init_def empty_state_def errors_New_def new_def ex_query_state_def QueryUsers_def
  ex_time_def ex_Format_def ex_leaf_state_def ex_leaf_ReadFile_def ex_os_state_def
  ex_os_ReadFile_def

lemma ex_wrapped_heap:
  "heap ex_wrapped_state 7 =
     wrapError ''list users: database error [SELECT on users]: connection timeout (retryable: true, timestamp: 2023-10-05T10:30:00Z)'' (Ptr 6)"
  "heap ex_wrapped_state 6 =
     DatabaseErrorObj
       \<lparr>Operation = ''SELECT'', Table = ''users'', Query = ''SELECT * FROM users LIMIT 10'',
        Err = Ptr 5, Timestamp = ''2023-10-05T10:30:00Z'', Retryable = True\<rparr>"
  "heap ex_wrapped_state 5 = errorString ''connection timeout''"
proof -
  have q6: "heap ex_query_state 6 =
     DatabaseErrorObj
       \<lparr>Operation = ''SELECT'', Table = ''users'', Query = ''SELECT * FROM users LIMIT 10'',
        Err = Ptr 5, Timestamp = ''2023-10-05T10:30:00Z'', Retryable = True\<rparr>"
    by (simp add: ex_defs fmt_d_def decimal.simps)
  have q5: "heap ex_query_state 5 = errorString ''connection timeout''"
    by (simp add: ex_defs)
  have n: "nextAddr ex_query_state = 7" by (simp add: ex_defs)
  have t: "fmt_v ex_Format (heap ex_query_state) (Ptr 6) =
      Some ''database error [SELECT on users]: connection timeout (retryable: true, timestamp: 2023-10-05T10:30:00Z)''"
    using q6 q5
    by (simp add: fmt_v_def Error_DatabaseError Error_errorString DatabaseError_Sprintf_def
        fmt_bool_def ex_Format_def)
  have w: "ex_wrapped_state = snd (new (wrapError ''list users: database error [SELECT on users]: connection timeout (retryable: true, timestamp: 2023-10-05T10:30:00Z)'' (Ptr 6)) ex_query_state)"
    using t by (simp add: ex_wrapped_state_def fmt_Errorf_w_def split_beta)
  show "heap ex_wrapped_state 7 =
     wrapError ''list users: database error [SELECT on users]: connection timeout (retryable: true, timestamp: 2023-10-05T10:30:00Z)'' (Ptr 6)"
    using n by (simp add: w new_def)
  show "heap ex_wrapped_state 6 =
     DatabaseErrorObj
       \<lparr>Operation = ''SELECT'', Table = ''users'', Query = ''SELECT * FROM users LIMIT 10'',
        Err = Ptr 5, Timestamp = ''2023-10-05T10:30:00Z'', Retryable = True\<rparr>"
    using n q6 by (simp add: w new_def)
  show "heap ex_wrapped_state 5 = errorString ''connection timeout''"
    using n q5 by (simp add: w new_def)
qed

text \<open>
  C1. For every \<^verbatim>\<open>DatabaseError\<close> \<open>e\<close>, \<^verbatim>\<open>e.Error()\<close> is exactly
  \<^verbatim>\<open>database error [<Operation> on <Table>]: <text of Err> (retryable: <true|false>, timestamp: <Timestamp in RFC3339>)\<close>,
  where the text of \<^verbatim>\<open>Err\<close> is what \<^verbatim>\<open>%v\<close> prints for it (and \<^verbatim>\<open>e.Error()\<close> has a result
  exactly when that text has one). For every limit, clock reading and state, the error
  that \<^verbatim>\<open>QueryUsers(limit)\<close> returns is not nil and renders as
  \<^verbatim>\<open>database error [SELECT on users]: connection timeout (retryable: true, timestamp: \<close>
  followed by the timestamp and the closing parenthesis.
\<close>

theorem DatabaseError_Error_text:
  "(h a = DatabaseErrorObj e \<longrightarrow>
      Error Format h a =
        map_option
          (\<lambda>t. ''database error ['' @ Operation e @ '' on '' @ Table e @ '']: '' @ t
                 @ '' (retryable: '' @ (if Retryable e then ''true'' else ''false'')
                 @ '', timestamp: '' @ Format (Timestamp e) RFC3339 @ '')'')
          (fmt_v Format h (Err e)))
   \<and> fst (QueryUsers limit now s) \<noteq> nil
   \<and> fmt_v Format (heap (snd (QueryUsers limit now s))) (fst (QueryUsers limit now s)) =
        Some (''database error [SELECT on users]: connection timeout (retryable: true, timestamp: ''
              @ Format now RFC3339 @ '')'')"
proof (intro conjI impI)
  assume "h a = DatabaseErrorObj e"
  then show "Error Format h a =
        map_option
          (\<lambda>t. ''database error ['' @ Operation e @ '' on '' @ Table e @ '']: '' @ t
                 @ '' (retryable: '' @ (if Retryable e then ''true'' else ''false'')
                 @ '', timestamp: '' @ Format (Timestamp e) RFC3339 @ '')'')
          (fmt_v Format h (Err e))"
    by (simp add: Error_DatabaseError DatabaseError_Sprintf_def fmt_bool_def
        cong: map_option_cong)
next
  show "fst (QueryUsers limit now s) \<noteq> nil"
    by (simp add: QueryUsers_def errors_New_def new_def)
next
  show "fmt_v Format (heap (snd (QueryUsers limit now s))) (fst (QueryUsers limit now s)) =
        Some (''database error [SELECT on users]: connection timeout (retryable: true, timestamp: ''
              @ Format now RFC3339 @ '')'')"
    by (simp add: QueryUsers_def errors_New_def new_def fmt_v_def Error_DatabaseError
        Error_errorString DatabaseError_Sprintf_def fmt_bool_def)
qed

theorem DatabaseError_Error_text_witness:
  "heap ex_query_state 6 =
     DatabaseErrorObj
       \<lparr>Operation = ''SELECT'', Table = ''users'', Query = ''SELECT * FROM users LIMIT 10'',
        Err = Ptr 5, Timestamp = ''2023-10-05T10:30:00Z'', Retryable = True\<rparr>
   \<and> Error ex_Format (heap ex_query_state) 6 =
       Some ''database error [SELECT on users]: connection timeout (retryable: true, timestamp: 2023-10-05T10:30:00Z)''"
proof -
  have obj: "heap ex_query_state 6 =
     DatabaseErrorObj
       \<lparr>Operation = ''SELECT'', Table = ''users'', Query = ''SELECT * FROM users LIMIT 10'',
        Err = Ptr 5, Timestamp = ''2023-10-05T10:30:00Z'', Retryable = True\<rparr>"
    by (simp add: ex_defs fmt_d_def decimal.simps)
  have cause: "fmt_v ex_Format (heap ex_query_state) (Ptr 5) = Some ''connection timeout''"
    by (simp add: ex_defs fmt_v_def Error_errorString)
  show ?thesis
    using obj cause
      DatabaseError_Error_text [of "heap ex_query_state" 6
        "\<lparr>Operation = ''SELECT'', Table = ''users'',
          Query = ''SELECT * FROM users LIMIT 10'', Err = Ptr 5,
          Timestamp = ''2023-10-05T10:30:00Z'', Retryable = True\<rparr>" ex_Format]
    by (simp add: ex_Format_def)
qed

section \<open>Single-step unwrapping\<close>

text \<open>
  C4. \<^verbatim>\<open>database.Unwramp(err)\<close> is one step: it returns the immediate cause when \<open>err\<close> has
  an \<^verbatim>\<open>Unwrap\<close> method (a \<^verbatim>\<open>wrapError\<close> gives the error it wraps, a \<^verbatim>\<open>DatabaseError\<close> its
  \<^verbatim>\<open>Err\<close>) and nil otherwise (a nil error, an \<^verbatim>\<open>errorString\<close>, a \<^verbatim>\<open>ValidationError\<close>).
  \<^verbatim>\<open>e.Unwrap()\<close> of a \<^verbatim>\<open>DatabaseError\<close> is the \<^verbatim>\<open>Err\<close> it was constructed with, nil for a
  leaf, also through \<^verbatim>\<open>Unwramp\<close> on the freshly allocated object.
\<close>

theorem Unwramp_single_step:
  "Unwramp h nil = nil
   \<and> (h a = errorString t \<longrightarrow> Unwramp h (Ptr a) = nil)
   \<and> (h a = ValidationErrorObj v \<longrightarrow> Unwramp h (Ptr a) = nil)
   \<and> (h a = wrapError m c \<longrightarrow> Unwramp h (Ptr a) = c)
   \<and> (h a = DatabaseErrorObj e \<longrightarrow> Unwramp h (Ptr a) = Err e)
   \<and> DatabaseError_Unwrap e = Err e
   \<and> DatabaseError_Unwrap (e\<lparr>Err := nil\<rparr>) = nil
   \<and> Unwramp (heap (snd (new (DatabaseErrorObj e) s))) (fst (new (DatabaseErrorObj e) s))
       = Err e"
  by (simp add: Unwramp_def DatabaseError_Unwrap_def new_def)

theorem Unwramp_single_step_witness:
  "heap ex_os_state 5 = errorString ''no such file or directory''
   \<and> Unwramp (heap ex_os_state) (Ptr 5) = nil
   \<and> heap ex_os_state 6 = wrapError ''open user_999.json: no such file or directory'' (Ptr 5)
   \<and> Unwramp (heap ex_os_state) (Ptr 6) = Ptr 5
   \<and> Unwramp (heap ex_query_state) (Ptr 6) = Ptr 5
   \<and> Unwramp (heap ex_query_state) (Ptr 5) = nil
   \<and> Unwramp (heap ex_wrapped_state) (Ptr 7) = Ptr 6
   \<and> Unwramp (heap ex_wrapped_state) (Ptr 6) = Ptr 5"
proof -
  have o5: "heap ex_os_state 5 = errorString ''no such file or directory''"
    by (simp add: ex_defs)
  have o6: "heap ex_os_state 6 =
      wrapError ''open user_999.json: no such file or directory'' (Ptr 5)"
    by (simp add: ex_defs)
  have q5: "heap ex_query_state 5 = errorString ''connection timeout''"
    by (simp add: ex_defs)
  have q6: "heap ex_query_state 6 =
     DatabaseErrorObj
       \<lparr>Operation = ''SELECT'', Table = ''users'', Query = ''SELECT * FROM users LIMIT 10'',
        Err = Ptr 5, Timestamp = ''2023-10-05T10:30:00Z'', Retryable = True\<rparr>"
    by (simp add: ex_defs fmt_d_def decimal.simps)
  show ?thesis
    using o5 o6 q5 q6
      Unwramp_single_step [of "heap ex_os_state" 5 "''no such file or directory''"]
      Unwramp_single_step [of "heap ex_os_state" 6 _ _
        "''open user_999.json: no such file or directory''" "Ptr 5"]
      Unwramp_single_step [of "heap ex_query_state" 5 "''connection timeout''"]
      Unwramp_single_step [of "heap ex_query_state" 6 _ _ _ _
        "\<lparr>Operation = ''SELECT'', Table = ''users'',
          Query = ''SELECT * FROM users LIMIT 10'', Err = Ptr 5,
          Timestamp = ''2023-10-05T10:30:00Z'', Retryable = True\<rparr>"]
      ex_wrapped_heap(1,2)
      Unwramp_single_step [of "heap ex_wrapped_state" 7 _ _
        "''list users: database error [SELECT on users]: connection timeout (retryable: true, timestamp: 2023-10-05T10:30:00Z)''"
        "Ptr 6"]
      Unwramp_single_step [of "heap ex_wrapped_state" 6 _ _ _ _
        "\<lparr>Operation = ''SELECT'', Table = ''users'',
          Query = ''SELECT * FROM users LIMIT 10'', Err = Ptr 5,
          Timestamp = ''2023-10-05T10:30:00Z'', Retryable = True\<rparr>"]
    by simp
qed

section \<open>Validation\<close>

text \<open>
  C7. For every user \<open>u\<close>, \<^verbatim>\<open>ValidateUser(u)\<close> returns a new \<^verbatim>\<open>ValidationError\<close> that carries
  the field name, a message, a numeric code and the offending value: code 2001 on field
  \<^verbatim>\<open>Age\<close> when \<^verbatim>\<open>u.Age < 0\<close>, else code 2002 on field \<^verbatim>\<open>Age\<close> when \<^verbatim>\<open>u.Age > 130\<close>, else code
  2003 on field \<^verbatim>\<open>Email\<close> when \<^verbatim>\<open>u.Email\<close> is empty; and it returns nil exactly when
  \<^verbatim>\<open>0 <= u.Age <= 130\<close> and \<^verbatim>\<open>u.Email\<close> is not empty.
\<close>

theorem ValidateUser_diagnostics:
  "(Age u < 0 \<longrightarrow>
      fst (ValidateUser u s) = Ptr (nextAddr s)
      \<and> heap (snd (ValidateUser u s)) (nextAddr s) =
          ValidationErrorObj \<lparr>Field' = ''Age'', Message = ''Age cannot be negative'',
            Code = 2001, Value = AnyInt (Age u)\<rparr>)
   \<and> (0 \<le> Age u \<and> 130 < Age u \<longrightarrow>
      fst (ValidateUser u s) = Ptr (nextAddr s)
      \<and> heap (snd (ValidateUser u s)) (nextAddr s) =
          ValidationErrorObj \<lparr>Field' = ''Age'', Message = ''Age cannot be greater than 130'',
            Code = 2002, Value = AnyInt (Age u)\<rparr>)
   \<and> (0 \<le> Age u \<and> Age u \<le> 130 \<and> Email u = [] \<longrightarrow>
      fst (ValidateUser u s) = Ptr (nextAddr s)
      \<and> heap (snd (ValidateUser u s)) (nextAddr s) =
          ValidationErrorObj \<lparr>Field' = ''Email'', Message = ''Email cannot be empty'',
            Code = 2003, Value = AnyString (Email u)\<rparr>)
   \<and> (fst (ValidateUser u s) = nil \<longleftrightarrow> 0 \<le> Age u \<and> Age u \<le> 130 \<and> Email u \<noteq> [])"
  by (simp add: ValidateUser_def new_def)

theorem ValidateUser_diagnostics_witness:
  "heap (snd (ValidateUser \<lparr>ID = 1, Email = ''a@b.c'', Age = - 5\<rparr> (utils_init :: string state))) 5
     = ValidationErrorObj \<lparr>Field' = ''Age'', Message = ''Age cannot be negative'',
         Code = 2001, Value = AnyInt (- 5)\<rparr>
   \<and> heap (snd (ValidateUser \<lparr>ID = 1, Email = [], Age = 131\<rparr> (utils_init :: string state))) 5
     = ValidationErrorObj \<lparr>Field' = ''Age'', Message = ''Age cannot be greater than 130'',
         Code = 2002, Value = AnyInt 131\<rparr>
   \<and> heap (snd (ValidateUser \<lparr>ID = 1, Email = [], Age = 130\<rparr> (utils_init :: string state))) 5
     = ValidationErrorObj \<lparr>Field' = ''Email'', Message = ''Email cannot be empty'',
         Code = 2003, Value = AnyString []\<rparr>
   \<and> fst (ValidateUser \<lparr>ID = 1, Email = ''a@b.c'', Age = 0\<rparr> (utils_init :: string state)) = nil"
proof -
  have n: "nextAddr (utils_init :: string state) = 5"
    by (simp add: ex_defs)
  show ?thesis
    using n
      ValidateUser_diagnostics [of "\<lparr>ID = 1, Email = ''a@b.c'', Age = - 5\<rparr>"
        "utils_init :: string state"]
      ValidateUser_diagnostics [of "\<lparr>ID = 1, Email = [], Age = 131\<rparr>"
        "utils_init :: string state"]
      ValidateUser_diagnostics [of "\<lparr>ID = 1, Email = [], Age = 130\<rparr>"
        "utils_init :: string state"]
      ValidateUser_diagnostics [of "\<lparr>ID = 1, Email = ''a@b.c'', Age = 0\<rparr>"
        "utils_init :: string state"]
    by simp
qed


section \<open>Allocation leaves the existing chains alone\<close>

lemma below_mono: "below n err \<Longrightarrow> n \<le> m \<Longrightarrow> below m err"
  by (cases err) (simp_all add: below_def)

lemma closedD: "closed s \<Longrightarrow> a < nextAddr s \<Longrightarrow> below (nextAddr s) (Unwrap (heap s a))"
  by (simp add: closed_def list_all_iff)

lemma closed_new:
  assumes "closed s" and "below (nextAddr s) (Unwrap ob)"
  shows "closed (snd (new ob s))"
  unfolding closed_def list_all_iff
proof
  fix a assume "a \<in> set [0..<nextAddr (snd (new ob s))]"
  then have a: "a < Suc (nextAddr s)" by (auto simp: new_def)
  show "below (nextAddr (snd (new ob s))) (Unwrap (heap (snd (new ob s)) a))"
  proof (cases "a = nextAddr s")
    case True
    with assms(2) show ?thesis by (simp add: new_def below_mono)
  next
    case False
    with a have "a < nextAddr s" by simp
    from closedD [OF assms(1) this] False show ?thesis
      by (simp add: new_def below_mono)
  qed
qed

lemma heap_new: "heap (snd (new ob s)) = (heap s)(nextAddr s := ob)"
  by (simp add: new_def)

lemma Error_frame_aux:
  assumes cl: "closed s" and res: "Error Format h a = Some t"
  shows "h = heap s \<longrightarrow> a < nextAddr s \<longrightarrow>
   Error Format ((heap s)(nextAddr s := ob)) a = Some t"
proof (rule Error.raw_induct [where P = "\<lambda>Format h a t. h = heap s \<longrightarrow> a < nextAddr s \<longrightarrow>
   Error Format ((heap s)(nextAddr s := ob)) a = Some t", OF _ res], goal_cases)
  case (1 Error' Format h a y)
  show ?case
  proof (intro impI)
    assume h: "h = heap s" and a: "a < nextAddr s"
    show "Error Format ((heap s)(nextAddr s := ob)) a = Some y"
    proof (cases "h a")
      case (DatabaseErrorObj e)
      show ?thesis
      proof (cases "Err e")
        case nil
        with 1(2) DatabaseErrorObj h a show ?thesis
          by (subst Error.simps) simp
      next
        case (Ptr b)
        from closedD [OF cl a] h DatabaseErrorObj Ptr
        have b: "b < nextAddr s" by (simp add: below_def DatabaseError_Unwrap_def)
        from 1(2) DatabaseErrorObj Ptr obtain t' where
          t': "Error' Format h b = Some t'" and y: "y = DatabaseError_Sprintf Format e t'"
          by (auto simp: bind_eq_Some_conv)
        from 1(1) [OF t'] h b
        have "Error Format ((heap s)(nextAddr s := ob)) b = Some t'" by simp
        with h a DatabaseErrorObj Ptr y show ?thesis
          by (subst Error.simps) simp
      qed
    qed (use 1(2) h a in \<open>subst Error.simps, simp\<close>)+
  qed
qed

lemma Error_frame:
  "closed s \<Longrightarrow> a < nextAddr s \<Longrightarrow> Error Format (heap s) a = Some t \<Longrightarrow>
   Error Format (heap (snd (new ob s))) a = Some t"
  using Error_frame_aux [of s Format "heap s" a t ob] by (simp add: heap_new)

lemma fmt_v_frame:
  "closed s \<Longrightarrow> below (nextAddr s) err \<Longrightarrow> fmt_v Format (heap s) err = Some t \<Longrightarrow>
   fmt_v Format (heap (snd (new ob s))) err = Some t"
  by (cases err) (simp_all add: fmt_v_def below_def Error_frame)

lemma WalkChain_frame_aux:
  assumes cl: "closed s" and res: "WalkChain Format h err acc = Some r"
  shows "h = heap s \<longrightarrow> below (nextAddr s) err \<longrightarrow>
   WalkChain Format (heap (snd (new ob s))) err acc = Some r"
proof (rule WalkChain.raw_induct [where P = "\<lambda>Format h err acc r.
   h = heap s \<longrightarrow> below (nextAddr s) err \<longrightarrow>
   WalkChain Format (heap (snd (new ob s))) err acc = Some r", OF _ res], goal_cases)
  case (1 Walk' Format h err acc y)
  show ?case
  proof (intro impI)
    assume h: "h = heap s" and bel: "below (nextAddr s) err"
    show "WalkChain Format (heap (snd (new ob s))) err acc = Some y"
    proof (cases err)
      case nil
      with 1(2) show ?thesis by (subst WalkChain.simps) simp
    next
      case (Ptr a)
      with bel have a: "a < nextAddr s" by (simp add: below_def)
      then have same: "heap (snd (new ob s)) a = h a" by (simp add: heap_new h)
      from 1(2) Ptr obtain t where t: "Error Format h a = Some t"
        and rest: "(if has_Unwrap (h a) then Walk' Format h (Unwrap (h a)) (acc @ [t])
                    else Some (acc @ [t])) = Some y"
        by (auto simp: bind_eq_Some_conv)
      from Error_frame [OF cl a] t h
      have t': "Error Format (heap (snd (new ob s))) a = Some t" by simp
      show ?thesis
      proof (cases "has_Unwrap (h a)")
        case True
        with rest have "Walk' Format h (Unwrap (h a)) (acc @ [t]) = Some y" by simp
        from 1(1) [OF this] h closedD [OF cl a]
        have "WalkChain Format (heap (snd (new ob s))) (Unwrap (h a)) (acc @ [t]) = Some y"
          by simp
        with True t' same Ptr show ?thesis by (subst WalkChain.simps) simp
      next
        case False
        with rest t' same Ptr show ?thesis by (subst WalkChain.simps) simp
      qed
    qed
  qed
qed

lemma WalkChain_frame:
  "closed s \<Longrightarrow> below (nextAddr s) err \<Longrightarrow> WalkChain Format (heap s) err acc = Some r \<Longrightarrow>
   WalkChain Format (heap (snd (new ob s))) err acc = Some r"
  using WalkChain_frame_aux [of s Format "heap s" err acc r ob] by simp

lemma chain_has_frame_aux:
  assumes cl: "closed s" and res: "chain_has h err target = Some r"
  shows "h = heap s \<longrightarrow> below (nextAddr s) err \<longrightarrow>
   chain_has (heap (snd (new ob s))) err target = Some r"
proof (rule chain_has.raw_induct [where P = "\<lambda>h err target r.
   h = heap s \<longrightarrow> below (nextAddr s) err \<longrightarrow>
   chain_has (heap (snd (new ob s))) err target = Some r", OF _ res], goal_cases)
  case (1 has' h err target y)
  show ?case
  proof (intro impI)
    assume h: "h = heap s" and bel: "below (nextAddr s) err"
    show "chain_has (heap (snd (new ob s))) err target = Some y"
    proof (cases "err = target")
      case True
      with 1(2) show ?thesis by (subst chain_has.simps) simp
    next
      case ne: False
      show ?thesis
      proof (cases err)
        case nil
        with 1(2) ne show ?thesis by (subst chain_has.simps) simp
      next
        case (Ptr a)
        with bel have a: "a < nextAddr s" by (simp add: below_def)
        then have same: "heap (snd (new ob s)) a = h a" by (simp add: heap_new h)
        show ?thesis
        proof (cases "has_Unwrap (h a)")
          case True
          with 1(2) ne Ptr have "has' h (Unwrap (h a)) target = Some y" by simp
          from 1(1) [OF this] h closedD [OF cl a]
          have "chain_has (heap (snd (new ob s))) (Unwrap (h a)) target = Some y" by simp
          with True same Ptr ne show ?thesis by (subst chain_has.simps) simp
        next
          case False
          with 1(2) ne same Ptr show ?thesis by (subst chain_has.simps) simp
        qed
      qed
    qed
  qed
qed

lemma chain_has_frame:
  "closed s \<Longrightarrow> below (nextAddr s) err \<Longrightarrow> chain_has (heap s) err target = Some r \<Longrightarrow>
   chain_has (heap (snd (new ob s))) err target = Some r"
  using chain_has_frame_aux [of s "heap s" err target r ob] by simp


section \<open>Sentinels\<close>

lemma fmt_Errorf_w_Some:
  assumes "fmt_v Format (heap s) err = Some t"
  shows "fmt_Errorf_w Format c err s = Some (Ptr (nextAddr s), snd (new (wrapError (c @ t) err) s))"
  using assms by (simp add: fmt_Errorf_w_def new_def)

lemma chain_has_self: "chain_has h err err = Some True"
  by (subst chain_has.simps) simp

lemma chain_has_leaf:
  "\<not> has_Unwrap (h a) \<Longrightarrow> Ptr a \<noteq> target \<Longrightarrow> chain_has h (Ptr a) target = Some False"
  by (subst chain_has.simps) simp

lemma chain_has_step:
  "has_Unwrap (h a) \<Longrightarrow> Ptr a \<noteq> target \<Longrightarrow>
   chain_has h (Ptr a) target = chain_has h (Unwrap (h a)) target"
  by (subst chain_has.simps) simp

text \<open>Wrapping does not change what an error matches among the errors that exist already.\<close>

lemma wrap_layers_chain_has:
  assumes "closed s" "below (nextAddr s) err" "err \<noteq> nil" "fmt_v Format (heap s) err = Some t"
    and "\<forall>target\<in>X. below (nextAddr s) target \<and> chain_has (heap s) err target = Some (R target)"
  shows "\<exists>err' s'. wrap_layers Format cs err s = Some (err', s') \<and> err' \<noteq> nil
      \<and> (\<forall>target\<in>X. chain_has (heap s') err' target = Some (R target))"
  using assms
proof (induction cs arbitrary: err s t)
  case Nil
  then show ?case by simp
next
  case (Cons c cs)
  let ?ob = "wrapError (c @ t) err"
  let ?s1 = "snd (new ?ob s)"
  let ?e1 = "Ptr (nextAddr s)"
  have w: "fmt_Errorf_w Format c err s = Some (?e1, ?s1)"
    using Cons.prems(4) by (rule fmt_Errorf_w_Some)
  have cl1: "closed ?s1"
    using Cons.prems(1,2) by (intro closed_new) simp_all
  have n1: "nextAddr ?s1 = Suc (nextAddr s)" by (simp add: new_def)
  have ob1: "heap ?s1 (nextAddr s) = ?ob" by (simp add: new_def)
  have b1: "below (nextAddr ?s1) ?e1" by (simp add: below_def n1)
  have t1: "fmt_v Format (heap ?s1) ?e1 = Some (c @ t)"
    using ob1 by (simp add: fmt_v_def Error_wrapError)
  have X1: "\<forall>target\<in>X. below (nextAddr ?s1) target
      \<and> chain_has (heap ?s1) ?e1 target = Some (R target)"
  proof
    fix target assume tg: "target \<in> X"
    with Cons.prems(5) have bt: "below (nextAddr s) target"
      and ch: "chain_has (heap s) err target = Some (R target)" by auto
    from bt have ne: "?e1 \<noteq> target" by (auto simp: below_def)
    from chain_has_frame [OF Cons.prems(1,2) ch]
    have "chain_has (heap ?s1) err target = Some (R target)" .
    with ne ob1 have "chain_has (heap ?s1) ?e1 target = Some (R target)"
      by (simp add: chain_has_step)
    with bt n1 show "below (nextAddr ?s1) target
      \<and> chain_has (heap ?s1) ?e1 target = Some (R target)"
      by (simp add: below_mono)
  qed
  from Cons.IH [OF cl1 b1 _ t1 X1] w show ?case by simp
qed

lemma sentinel_cases:
  "S \<in> set sentinels \<Longrightarrow> S = Ptr 0 \<or> S = Ptr 1 \<or> S = Ptr 2 \<or> S = Ptr 3 \<or> S = Ptr 4"
  by (auto simp: sentinels_def ErrUserNotFound_def ErrDuplicateEmail_def
      ErrInvalidPassword_def ErrUnauthorized_def ErrDatabaseTimeout_def)

lemma sentinel_leaf:
  assumes "sentinels_installed s" "S \<in> set sentinels"
  shows "\<exists>a t. S = Ptr a \<and> a < nextAddr s \<and> heap s a = errorString t"
  using sentinel_cases [OF assms(2)] assms(1) by (auto simp: sentinels_installed_def)

lemma MatchesSentinel_chain_has:
  "err \<noteq> nil \<Longrightarrow> target \<noteq> nil \<Longrightarrow> MatchesSentinel h err target = chain_has h err target"
  by (simp add: MatchesSentinel_def)

lemma wrap_sentinel:
  assumes "sentinels_installed s" and "closed s" and "S \<in> set sentinels"
  shows "\<exists>err s'. wrap_layers Format cs S s = Some (err, s') \<and> err \<noteq> nil
      \<and> (\<forall>T\<in>set sentinels. chain_has (heap s) S T = Some (T = S)
            \<and> chain_has (heap s') err T = Some (T = S))"
proof -
  from sentinel_leaf [OF assms(1,3)] obtain a t where
    S: "S = Ptr a" and a: "a < nextAddr s" and ob: "heap s a = errorString t" by blast
  have base: "\<forall>T\<in>set sentinels.
      below (nextAddr s) T \<and> chain_has (heap s) S T = Some (T = S)"
  proof
    fix T assume T: "T \<in> set sentinels"
    from sentinel_leaf [OF assms(1) T] have bT: "below (nextAddr s) T"
      by (auto simp: below_def)
    show "below (nextAddr s) T \<and> chain_has (heap s) S T = Some (T = S)"
    proof (cases "T = S")
      case True
      with bT show ?thesis by (simp add: chain_has_self)
    next
      case False
      with ob S have "chain_has (heap s) S T = Some False"
        by (simp add: chain_has_leaf)
      with bT False show ?thesis by simp
    qed
  qed
  have bS: "below (nextAddr s) S" using S a by (simp add: below_def)
  have tS: "fmt_v Format (heap s) S = Some t"
    using S ob by (simp add: fmt_v_def Error_errorString)
  from wrap_layers_chain_has [OF assms(2) bS _ tS base, of cs] S base
  show ?thesis by auto
qed

lemma FindUserByEmail_result:
  assumes "sentinels_installed s"
  shows "FindUserByEmail Format email s =
     (if email = [] then
        Some ((None, Ptr (nextAddr s)),
              snd (new (wrapError ''email cannot be empty: user not found'' ErrUserNotFound) s))
      else Some ((None, ErrUserNotFound), s))"
proof -
  from assms have "fmt_v Format (heap s) ErrUserNotFound = Some ''user not found''"
    by (simp add: sentinels_installed_def ErrUserNotFound_def fmt_v_def Error_errorString)
  from fmt_Errorf_w_Some [OF this, of "''email cannot be empty: ''"]
  show ?thesis by (simp add: FindUserByEmail_def)
qed

lemma wrapped_sentinel_matches:
  assumes "sentinels_installed s"
  shows "MatchesSentinel (heap (snd (new (wrapError m ErrUserNotFound) s))) (Ptr (nextAddr s))
           ErrUserNotFound = Some True"
proof -
  let ?h = "heap (snd (new (wrapError m ErrUserNotFound) s))"
  have ob: "?h (nextAddr s) = wrapError m ErrUserNotFound" by (simp add: new_def)
  from assms have ne: "Ptr (nextAddr s) \<noteq> ErrUserNotFound"
    by (auto simp: sentinels_installed_def ErrUserNotFound_def)
  from ob ne have "chain_has ?h (Ptr (nextAddr s)) ErrUserNotFound = Some True"
    by (simp add: chain_has_step chain_has_self)
  then show ?thesis by (simp add: MatchesSentinel_def ErrUserNotFound_def)
qed

text \<open>
  C2. Matching is by identity. In a state of the running program, for each of the five
  sentinels \<open>S\<close>: \<^verbatim>\<open>MatchesSentinel\<close> holds of \<open>S\<close> itself and of \<open>S\<close> wrapped by any number
  of \<^verbatim>\<open>fmt.Errorf("...: %w", ...)\<close> layers, and for every other sentinel \<open>T\<close> it holds
  neither of \<open>S\<close> nor of the wrapped \<open>S\<close>; the error \<^verbatim>\<open>FindUserByEmail("")\<close> returns matches
  \<^verbatim>\<open>ErrUserNotFound\<close>; and two errors made by two calls of \<^verbatim>\<open>errors.New\<close> with the same
  text have the same text, are different errors and match each other in neither
  direction.
\<close>

theorem sentinel_identity:
  assumes "sentinels_installed s" and "closed s" and "S \<in> set sentinels"
  shows "MatchesSentinel (heap s) S S = Some True
    \<and> (\<exists>err s'. wrap_layers Format cs S s = Some (err, s')
          \<and> MatchesSentinel (heap s') err S = Some True
          \<and> (\<forall>T\<in>set sentinels. T \<noteq> S \<longrightarrow>
                MatchesSentinel (heap s) S T = Some False
                \<and> MatchesSentinel (heap s') err T = Some False))
    \<and> (\<exists>err s'. FindUserByEmail Format [] s = Some ((None, err), s')
          \<and> MatchesSentinel (heap s') err ErrUserNotFound = Some True)
    \<and> fst (errors_New text s) \<noteq> fst (errors_New text (snd (errors_New text s)))
    \<and> Error Format (heap (snd (errors_New text (snd (errors_New text s)))))
          (nextAddr s) = Some text
    \<and> Error Format (heap (snd (errors_New text (snd (errors_New text s)))))
          (Suc (nextAddr s)) = Some text
    \<and> MatchesSentinel (heap (snd (errors_New text (snd (errors_New text s)))))
          (fst (errors_New text s)) (fst (errors_New text (snd (errors_New text s))))
        = Some False
    \<and> MatchesSentinel (heap (snd (errors_New text (snd (errors_New text s)))))
          (fst (errors_New text (snd (errors_New text s)))) (fst (errors_New text s))
        = Some False"
proof -
  have nn: "\<And>T. T \<in> set sentinels \<Longrightarrow> T \<noteq> nil"
    using sentinel_cases by auto
  from wrap_sentinel [OF assms, of Format cs]
  obtain err s' where w: "wrap_layers Format cs S s = Some (err, s')" and ne: "err \<noteq> nil"
    and m: "\<forall>T\<in>set sentinels. chain_has (heap s) S T = Some (T = S)
              \<and> chain_has (heap s') err T = Some (T = S)"
    by auto
  have 1: "MatchesSentinel (heap s) S S = Some True"
    by (simp add: MatchesSentinel_def chain_has_self)
  have 2: "\<exists>err s'. wrap_layers Format cs S s = Some (err, s')
          \<and> MatchesSentinel (heap s') err S = Some True
          \<and> (\<forall>T\<in>set sentinels. T \<noteq> S \<longrightarrow>
                MatchesSentinel (heap s) S T = Some False
                \<and> MatchesSentinel (heap s') err T = Some False)"
  proof (intro exI conjI ballI impI)
    show "wrap_layers Format cs S s = Some (err, s')" by (rule w)
    show "MatchesSentinel (heap s') err S = Some True"
      using m assms(3) ne nn [OF assms(3)] by (simp add: MatchesSentinel_chain_has)
  next
    fix T assume T: "T \<in> set sentinels" and d: "T \<noteq> S"
    from m T d nn [OF T] nn [OF assms(3)]
    show "MatchesSentinel (heap s) S T = Some False"
      by (simp add: MatchesSentinel_chain_has)
    from m T d ne nn [OF T] show "MatchesSentinel (heap s') err T = Some False"
      by (simp add: MatchesSentinel_chain_has)
  qed
  have 3: "\<exists>err s'. FindUserByEmail Format [] s = Some ((None, err), s')
          \<and> MatchesSentinel (heap s') err ErrUserNotFound = Some True"
    using wrapped_sentinel_matches [OF assms(1)]
    by (simp add: FindUserByEmail_result [OF assms(1)])
  let ?h2 = "heap (snd (errors_New text (snd (errors_New text s))))"
  have h0: "?h2 (nextAddr s) = errorString text"
    and h1: "?h2 (Suc (nextAddr s)) = errorString text"
    by (simp_all add: errors_New_def new_def)
  have e0: "fst (errors_New text s) = Ptr (nextAddr s)"
    and e1: "fst (errors_New text (snd (errors_New text s))) = Ptr (Suc (nextAddr s))"
    by (simp_all add: errors_New_def new_def)
  show ?thesis
    using 1 2 3 h0 h1
    by (simp add: e0 e1 Error_errorString MatchesSentinel_chain_has chain_has_leaf)
qed

theorem sentinel_identity_witness:
  "sentinels_installed (utils_init :: string state)
   \<and> closed (utils_init :: string state)
   \<and> ErrDuplicateEmail \<in> set sentinels
   \<and> (\<exists>err s'.
        wrap_layers ex_Format [''database layer: '', ''service layer: '', ''handler layer: '']
          ErrUserNotFound (utils_init :: string state) = Some (err, s')
        \<and> MatchesSentinel (heap s') err ErrUserNotFound = Some True
        \<and> MatchesSentinel (heap s') err ErrDuplicateEmail = Some False)"
proof -
  have i: "sentinels_installed (utils_init :: string state)"
    by (simp add: sentinels_installed_def ex_defs)
  have c: "closed (utils_init :: string state)"
    by (simp add: closed_def below_def ex_defs)
  have m: "ErrUserNotFound \<in> set sentinels" and m': "ErrDuplicateEmail \<in> set sentinels"
    and d: "ErrDuplicateEmail \<noteq> ErrUserNotFound"
    by (simp_all add: sentinels_def ErrUserNotFound_def ErrDuplicateEmail_def)
  from sentinel_identity [OF i c m, of ex_Format
      "[''database layer: '', ''service layer: '', ''handler layer: '']" "[]"] m' d
  have "\<exists>err s'.
        wrap_layers ex_Format [''database layer: '', ''service layer: '', ''handler layer: '']
          ErrUserNotFound (utils_init :: string state) = Some (err, s')
        \<and> MatchesSentinel (heap s') err ErrUserNotFound = Some True
        \<and> MatchesSentinel (heap s') err ErrDuplicateEmail = Some False"
    by blast
  with i c m' show ?thesis by simp
qed

text \<open>
  C10. \<^verbatim>\<open>FindUserByEmail\<close> never succeeds: in a state of the running program, for every
  email it returns a nil user and a non-nil error that matches \<^verbatim>\<open>ErrUserNotFound\<close>. For the
  empty email the error is a new one that wraps the sentinel, with the text
  \<^verbatim>\<open>email cannot be empty: user not found\<close>; for any other email it is the sentinel
  itself, and nothing is allocated.
\<close>

theorem FindUserByEmail_not_found:
  assumes "sentinels_installed s"
  shows "\<exists>err s'. FindUserByEmail Format email s = Some ((None, err), s')
      \<and> err \<noteq> nil
      \<and> MatchesSentinel (heap s') err ErrUserNotFound = Some True
      \<and> (email = [] \<longrightarrow>
            err = Ptr (nextAddr s) \<and> err \<noteq> ErrUserNotFound
            \<and> heap s' (nextAddr s) =
                wrapError ''email cannot be empty: user not found'' ErrUserNotFound
            \<and> Error Format (heap s') (nextAddr s) = Some ''email cannot be empty: user not found''
            \<and> Unwramp (heap s') err = ErrUserNotFound)
      \<and> (email \<noteq> [] \<longrightarrow> err = ErrUserNotFound \<and> s' = s)"
proof (cases "email = []")
  case True
  let ?ob = "wrapError ''email cannot be empty: user not found'' ErrUserNotFound"
  have ob: "heap (snd (new ?ob s)) (nextAddr s) = ?ob" by (simp add: new_def)
  from assms have ne: "Ptr (nextAddr s) \<noteq> ErrUserNotFound"
    by (auto simp: sentinels_installed_def ErrUserNotFound_def)
  from True ob ne wrapped_sentinel_matches [OF assms] show ?thesis
    by (simp add: FindUserByEmail_result [OF assms] Error_wrapError Unwramp_def)
next
  case False
  then show ?thesis
    by (simp add: FindUserByEmail_result [OF assms] MatchesSentinel_def ErrUserNotFound_def
        chain_has_self)
qed

theorem FindUserByEmail_not_found_witness:
  "sentinels_installed (utils_init :: string state)
   \<and> (\<exists>s'. FindUserByEmail ex_Format [] (utils_init :: string state) =
              Some ((None, Ptr 5), s')
          \<and> heap s' 5 = wrapError ''email cannot be empty: user not found'' ErrUserNotFound
          \<and> MatchesSentinel (heap s') (Ptr 5) ErrUserNotFound = Some True)
   \<and> FindUserByEmail ex_Format ''test@example.com'' (utils_init :: string state) =
       Some ((None, ErrUserNotFound), utils_init)"
proof -
  have i: "sentinels_installed (utils_init :: string state)"
    by (simp add: sentinels_installed_def ex_defs)
  have n: "nextAddr (utils_init :: string state) = 5" by (simp add: ex_defs)
  from FindUserByEmail_not_found [OF i, of ex_Format "[]"]
    FindUserByEmail_not_found [OF i, of ex_Format "''test@example.com''"] i n
  show ?thesis by auto
qed


section \<open>Rendering has no effect\<close>

lemma new_frame: "a < nextAddr s \<Longrightarrow> heap (snd (new ob s)) a = heap s a"
  by (simp add: new_def)

text \<open>
  The state-passing call and the text read off the store agree: the call returns when
  the text exists, with that text, and the state it returns is the state it received.
\<close>

lemma Error_st_sound:
  assumes res: "Error_st Format a s = Some r"
  shows "snd r = s \<and> Error Format (heap s) a = Some (fst r)"
proof (rule Error_st.raw_induct [where P = "\<lambda>Format a s r.
    snd r = s \<and> Error Format (heap s) a = Some (fst r)", OF _ res], goal_cases)
  case (1 Error' Format a s y)
  show ?case
  proof (cases "heap s a")
    case (DatabaseErrorObj e)
    show ?thesis
    proof (cases "Err e")
      case nil
      with 1(2) DatabaseErrorObj show ?thesis
        by (auto simp: Error_DatabaseError fmt_v_def)
    next
      case (Ptr b)
      with 1(2) DatabaseErrorObj obtain t s1 where
        c: "Error' Format b s = Some (t, s1)" and y: "y = (DatabaseError_Sprintf Format e t, s1)"
        by (auto simp: bind_eq_Some_conv)
      from 1(1) [OF c] have "s1 = s" and "Error Format (heap s) b = Some t" by simp_all
      with y DatabaseErrorObj Ptr show ?thesis
        by (simp add: Error_DatabaseError fmt_v_def)
    qed
  qed (use 1(2) in \<open>auto simp: Error_errorString Error_wrapError Error_ValidationError\<close>)
qed

lemma Error_st_complete:
  assumes res: "Error Format h a = Some t"
  shows "\<forall>s. heap s = h \<longrightarrow> Error_st Format a s = Some (t, s)"
proof (rule Error.raw_induct [where P = "\<lambda>Format h a t.
    \<forall>s. heap s = h \<longrightarrow> Error_st Format a s = Some (t, s)", OF _ res], goal_cases)
  case (1 Error' Format h a y)
  show ?case
  proof (intro allI impI)
    fix s :: "'a state" assume h: "heap s = h"
    show "Error_st Format a s = Some (y, s)"
    proof (cases "h a")
      case (DatabaseErrorObj e)
      show ?thesis
      proof (cases "Err e")
        case nil
        with 1(2) DatabaseErrorObj h show ?thesis
          by (subst Error_st.simps) simp
      next
        case (Ptr b)
        with 1(2) DatabaseErrorObj obtain t' where
          c: "Error' Format h b = Some t'" and y: "y = DatabaseError_Sprintf Format e t'"
          by (auto simp: bind_eq_Some_conv)
        from 1(1) [OF c] h have "Error_st Format b s = Some (t', s)" by simp
        with y DatabaseErrorObj Ptr h show ?thesis
          by (subst Error_st.simps) simp
      qed
    qed (use 1(2) h in \<open>subst Error_st.simps, simp\<close>)+
  qed
qed

lemma Error_st_Error:
  "Error_st Format a s = map_option (\<lambda>t. (t, s)) (Error Format (heap s) a)"
proof (cases "Error Format (heap s) a")
  case None
  show ?thesis
  proof (cases "Error_st Format a s")
    case (Some r)
    from Error_st_sound [OF this] None show ?thesis by simp
  qed (simp add: None)
next
  case (Some t)
  from Error_st_complete [OF this] Some show ?thesis by simp
qed

text \<open>
  C9. Rendering has no side effect: whenever \<^verbatim>\<open>err.Error()\<close> returns, the state after the
  call is the state before it; so after \<^verbatim>\<open>e.Error()\<close> on a \<^verbatim>\<open>DatabaseError\<close> the object has
  its six fields as they were, the timestamp among them, and a second call gives the
  same text. The call returns exactly when the text of the error exists, with that
  text. The text is a function of \<^verbatim>\<open>Operation\<close>, \<^verbatim>\<open>Table\<close>, the text of \<^verbatim>\<open>Err\<close>, \<^verbatim>\<open>Timestamp\<close> and
  \<^verbatim>\<open>Retryable\<close>: two objects that agree on these render alike, whatever their \<^verbatim>\<open>Query\<close>
  and wherever they are. The operations that do change the state (\<^verbatim>\<open>errors.New\<close>,
  \<^verbatim>\<open>fmt.Errorf\<close>, \<^verbatim>\<open>QueryUsers\<close>, \<^verbatim>\<open>ValidateUser\<close>) only allocate: no object that exists is
  modified.
\<close>

theorem Error_no_side_effect:
  "(Error_st Format a s = Some (t, s') \<longrightarrow> s' = s)
   \<and> (heap s a = DatabaseErrorObj e \<and> Error_st Format a s = Some (t, s') \<longrightarrow>
        heap s' a = DatabaseErrorObj e \<and> Error_st Format a s' = Some (t, s'))
   \<and> Error_st Format a s = map_option (\<lambda>t. (t, s)) (Error Format (heap s) a)
   \<and> (heap s a = DatabaseErrorObj e \<and> heap r b = DatabaseErrorObj e'
        \<and> Operation e = Operation e' \<and> Table e = Table e'
        \<and> Timestamp e = Timestamp e' \<and> Retryable e = Retryable e'
        \<and> fmt_v Format (heap s) (Err e) = fmt_v Format (heap r) (Err e') \<longrightarrow>
      map_option fst (Error_st Format a s) = map_option fst (Error_st Format b r))
   \<and> (a < nextAddr s \<longrightarrow>
        heap (snd (errors_New text s)) a = heap s a
        \<and> heap (snd (QueryUsers limit now s)) a = heap s a
        \<and> heap (snd (ValidateUser u s)) a = heap s a
        \<and> (\<forall>err' s2. fmt_Errorf_w Format c err s = Some (err', s2) \<longrightarrow> heap s2 a = heap s a))"
proof -
  have 0: "s' = s" if "Error_st Format a s = Some (t, s')"
    using Error_st_sound [OF that] by simp
  have 1: "heap s a = DatabaseErrorObj e \<and> Error_st Format a s = Some (t, s') \<longrightarrow>
        heap s' a = DatabaseErrorObj e \<and> Error_st Format a s' = Some (t, s')"
    using 0 by auto
  have 2: "heap s a = DatabaseErrorObj e \<and> heap r b = DatabaseErrorObj e'
        \<and> Operation e = Operation e' \<and> Table e = Table e'
        \<and> Timestamp e = Timestamp e' \<and> Retryable e = Retryable e'
        \<and> fmt_v Format (heap s) (Err e) = fmt_v Format (heap r) (Err e') \<longrightarrow>
      map_option fst (Error_st Format a s) = map_option fst (Error_st Format b r)"
    by (simp add: Error_st_Error Error_DatabaseError DatabaseError_Sprintf_def
        option.map_comp comp_def cong: map_option_cong)
  have 3: "heap (snd (errors_New text s)) a = heap s a" if "a < nextAddr s"
    using that by (simp add: errors_New_def new_frame)
  have 4: "heap (snd (QueryUsers limit now s)) a = heap s a" if "a < nextAddr s"
    using that by (simp add: QueryUsers_def errors_New_def new_def)
  have 5: "heap (snd (ValidateUser u s)) a = heap s a" if "a < nextAddr s"
    using that by (simp add: ValidateUser_def new_def)
  have 6: "\<forall>err' s2. fmt_Errorf_w Format c err s = Some (err', s2) \<longrightarrow> heap s2 a = heap s a"
    if "a < nextAddr s"
    using that by (auto simp: fmt_Errorf_w_def new_def bind_eq_Some_conv)
  from 0 1 2 3 4 5 6 Error_st_Error [of Format a s] show ?thesis by blast
qed

theorem Error_no_side_effect_witness:
  "Error_st ex_Format 6 ex_query_state =
     Some (''database error [SELECT on users]: connection timeout (retryable: true, timestamp: 2023-10-05T10:30:00Z)'',
           ex_query_state)
   \<and> heap ex_query_state 6 =
     DatabaseErrorObj
       \<lparr>Operation = ''SELECT'', Table = ''users'', Query = ''SELECT * FROM users LIMIT 10'',
        Err = Ptr 5, Timestamp = ''2023-10-05T10:30:00Z'', Retryable = True\<rparr>
   \<and> heap (snd (errors_New ''again'' ex_query_state)) 6 = heap ex_query_state 6"
proof -
  let ?e = "\<lparr>Operation = ''SELECT'', Table = ''users'',
          Query = ''SELECT * FROM users LIMIT 10'', Err = Ptr 5,
          Timestamp = ''2023-10-05T10:30:00Z'', Retryable = True\<rparr>"
  let ?t = "''database error [SELECT on users]: connection timeout (retryable: true, timestamp: 2023-10-05T10:30:00Z)''"
  have obj: "heap ex_query_state 6 = DatabaseErrorObj ?e"
    by (simp add: ex_defs fmt_d_def decimal.simps)
  have c: "heap ex_query_state 5 = errorString ''connection timeout''"
    by (simp add: ex_defs)
  have rendered: "Error ex_Format (heap ex_query_state) 6 = Some ?t"
    using obj c
    by (simp add: Error_DatabaseError fmt_v_def Error_errorString
        DatabaseError_Sprintf_def fmt_bool_def ex_Format_def)
  have n: "6 < nextAddr ex_query_state" by (simp add: ex_defs)
  show ?thesis
    using obj rendered n
      Error_no_side_effect [of ex_Format 6 ex_query_state ?t ex_query_state ?e
        ex_query_state 6 ?e "''again''"]
    by simp
qed

section \<open>Extraction\<close>

lemma Unwramp_Ptr: "Unwramp h (Ptr a) = (if has_Unwrap (h a) then Unwrap (h a) else nil)"
  by (simp add: Unwramp_def)

lemma ExtractTyped_nil: "ExtractTyped h nil = Some nil"
  by (subst ExtractTyped.simps) simp

lemma ExtractTyped_found: "is_DatabaseError (h a) \<Longrightarrow> ExtractTyped h (Ptr a) = Some (Ptr a)"
  by (subst ExtractTyped.simps) simp

lemma ExtractTyped_step:
  "\<not> is_DatabaseError (h a) \<Longrightarrow> ExtractTyped h (Ptr a) = ExtractTyped h (Unwramp h (Ptr a))"
  by (subst ExtractTyped.simps) (simp add: Unwramp_Ptr ExtractTyped_nil)

lemma ExtractTyped_first_aux:
  "(\<forall>j<k. case (Unwramp h ^^ j) err of nil \<Rightarrow> False | Ptr a \<Rightarrow> \<not> is_DatabaseError (h a)) \<Longrightarrow>
   (case (Unwramp h ^^ k) err of nil \<Rightarrow> True | Ptr a \<Rightarrow> is_DatabaseError (h a)) \<Longrightarrow>
   ExtractTyped h err = Some ((Unwramp h ^^ k) err)"
proof (induction k arbitrary: err)
  case 0
  then show ?case
    by (cases err) (simp_all add: ExtractTyped_nil ExtractTyped_found)
next
  case (Suc k)
  from Suc.prems(1) [rule_format, of 0] obtain a where
    err: "err = Ptr a" and nd: "\<not> is_DatabaseError (h a)"
    by (cases err) simp_all
  have "\<forall>j<k. case (Unwramp h ^^ j) (Unwramp h err) of nil \<Rightarrow> False
      | Ptr a \<Rightarrow> \<not> is_DatabaseError (h a)"
  proof (intro allI impI)
    fix j assume "j < k"
    then have "Suc j < Suc k" by simp
    from Suc.prems(1) [rule_format, OF this]
    show "case (Unwramp h ^^ j) (Unwramp h err) of nil \<Rightarrow> False
      | Ptr a \<Rightarrow> \<not> is_DatabaseError (h a)"
      by (simp add: funpow_swap1)
  qed
  moreover from Suc.prems(2)
  have "case (Unwramp h ^^ k) (Unwramp h err) of nil \<Rightarrow> True | Ptr a \<Rightarrow> is_DatabaseError (h a)"
    by (simp add: funpow_swap1)
  ultimately have "ExtractTyped h (Unwramp h err) = Some ((Unwramp h ^^ k) (Unwramp h err))"
    by (rule Suc.IH)
  with err nd show ?case
    by (simp add: ExtractTyped_step funpow_swap1)
qed


text \<open>
  C3. \<^verbatim>\<open>ExtractTyped\<close> returns the first element of the chain that is a \<^verbatim>\<open>DatabaseError\<close>,
  or absent if none is: when the first \<open>k\<close> elements are errors of other types and the
  chain then ends or reaches a \<^verbatim>\<open>DatabaseError\<close>, the result is what \<open>k\<close> unwrapping
  steps reach. For every limit, clock reading and state, extraction from the error of
  \<^verbatim>\<open>QueryUsers(limit)\<close> gives that very error, whose fields are \<^verbatim>\<open>Operation = "SELECT"\<close>,
  \<^verbatim>\<open>Table = "users"\<close>, \<^verbatim>\<open>Retryable = true\<close>, the query text \<^verbatim>\<open>SELECT * FROM users LIMIT\<close>
  followed by the limit in decimal, the clock reading, and the new
  \<^verbatim>\<open>connection timeout\<close> error as \<^verbatim>\<open>Err\<close>.
\<close>

theorem ExtractTyped_first:
  "((\<forall>j<k. case (Unwramp h ^^ j) err of nil \<Rightarrow> False | Ptr a \<Rightarrow> \<not> is_DatabaseError (h a))
     \<and> (case (Unwramp h ^^ k) err of nil \<Rightarrow> True | Ptr a \<Rightarrow> is_DatabaseError (h a)) \<longrightarrow>
     ExtractTyped h err = Some ((Unwramp h ^^ k) err))
   \<and> fst (QueryUsers limit now s) = Ptr (Suc (nextAddr s))
   \<and> ExtractTyped (heap (snd (QueryUsers limit now s))) (fst (QueryUsers limit now s))
       = Some (fst (QueryUsers limit now s))
   \<and> heap (snd (QueryUsers limit now s)) (Suc (nextAddr s)) =
       DatabaseErrorObj
         \<lparr>Operation = ''SELECT'', Table = ''users'',
          Query = ''SELECT * FROM users LIMIT '' @ fmt_d limit, Err = Ptr (nextAddr s),
          Timestamp = now, Retryable = True\<rparr>
   \<and> heap (snd (QueryUsers limit now s)) (nextAddr s) = errorString ''connection timeout''"
proof -
  have ob: "heap (snd (QueryUsers limit now s)) (Suc (nextAddr s)) =
       DatabaseErrorObj
         \<lparr>Operation = ''SELECT'', Table = ''users'',
          Query = ''SELECT * FROM users LIMIT '' @ fmt_d limit, Err = Ptr (nextAddr s),
          Timestamp = now, Retryable = True\<rparr>"
    by (simp add: QueryUsers_def errors_New_def new_def)
  have e: "fst (QueryUsers limit now s) = Ptr (Suc (nextAddr s))"
    by (simp add: QueryUsers_def errors_New_def new_def)
  have c: "heap (snd (QueryUsers limit now s)) (nextAddr s) = errorString ''connection timeout''"
    by (simp add: QueryUsers_def errors_New_def new_def)
  from ob have "ExtractTyped (heap (snd (QueryUsers limit now s))) (Ptr (Suc (nextAddr s)))
      = Some (Ptr (Suc (nextAddr s)))"
    by (simp add: ExtractTyped_found)
  with ob e c ExtractTyped_first_aux [of k h err] show ?thesis by simp
qed

theorem ExtractTyped_first_witness:
  "heap ex_wrapped_state 7 =
     wrapError ''list users: database error [SELECT on users]: connection timeout (retryable: true, timestamp: 2023-10-05T10:30:00Z)'' (Ptr 6)
   \<and> is_DatabaseError (heap ex_wrapped_state 6)
   \<and> ExtractTyped (heap ex_wrapped_state) (Ptr 7) = Some (Ptr 6)
   \<and> ExtractTyped (heap ex_os_state) (Ptr 6) = Some nil"
proof -
  have q6: "heap ex_query_state 6 =
     DatabaseErrorObj
       \<lparr>Operation = ''SELECT'', Table = ''users'', Query = ''SELECT * FROM users LIMIT 10'',
        Err = Ptr 5, Timestamp = ''2023-10-05T10:30:00Z'', Retryable = True\<rparr>"
    by (simp add: ex_defs fmt_d_def decimal.simps)
  have q5: "heap ex_query_state 5 = errorString ''connection timeout''"
    by (simp add: ex_defs)
  have n: "nextAddr ex_query_state = 7" by (simp add: ex_defs)
  have t: "fmt_v ex_Format (heap ex_query_state) (Ptr 6) =
      Some ''database error [SELECT on users]: connection timeout (retryable: true, timestamp: 2023-10-05T10:30:00Z)''"
    using q6 q5
    by (simp add: fmt_v_def Error_DatabaseError Error_errorString DatabaseError_Sprintf_def
        fmt_bool_def ex_Format_def)
  have w: "ex_wrapped_state = snd (new (wrapError ''list users: database error [SELECT on users]: connection timeout (retryable: true, timestamp: 2023-10-05T10:30:00Z)'' (Ptr 6)) ex_query_state)"
    using t by (simp add: ex_wrapped_state_def fmt_Errorf_w_def split_beta)
  have w7: "heap ex_wrapped_state 7 =
     wrapError ''list users: database error [SELECT on users]: connection timeout (retryable: true, timestamp: 2023-10-05T10:30:00Z)'' (Ptr 6)"
    and w6: "heap ex_wrapped_state 6 = heap ex_query_state 6"
    using n by (simp_all add: w new_def)
  have o5: "heap ex_os_state 5 = errorString ''no such file or directory''"
    and o6: "heap ex_os_state 6 =
      wrapError ''open user_999.json: no such file or directory'' (Ptr 5)"
    by (simp_all add: ex_defs)
  show ?thesis
    using w7 w6 q6 o5 o6
      ExtractTyped_first [of 1 "heap ex_wrapped_state" "Ptr 7" 10 ex_time utils_init]
      ExtractTyped_first [of 2 "heap ex_os_state" "Ptr 6" 10 ex_time utils_init]
    by (simp add: Unwramp_def numeral_2_eq_2 less_Suc_eq)
qed

section \<open>Walking a wrapped error\<close>

lemma WalkChain_nil: "WalkChain Format h nil acc = Some acc"
  by (subst WalkChain.simps) simp

lemma WalkChain_Ptr:
  "WalkChain Format h (Ptr a) acc =
     Option.bind (Error Format h a)
       (\<lambda>t. if has_Unwrap (h a) then WalkChain Format h (Unwrap (h a)) (acc @ [t])
             else Some (acc @ [t]))"
  by (subst WalkChain.simps) simp

text \<open>The walk only appends to the levels it was given.\<close>

lemma WalkChain_acc_aux:
  assumes res: "WalkChain Format h err acc = Some r"
  shows "\<exists>r'. r = acc @ r' \<and> (\<forall>acc'. WalkChain Format h err acc' = Some (acc' @ r'))"
proof (rule WalkChain.raw_induct [where P = "\<lambda>Format h err acc r.
   \<exists>r'. r = acc @ r' \<and> (\<forall>acc'. WalkChain Format h err acc' = Some (acc' @ r'))",
   OF _ res], goal_cases)
  case (1 Walk' Format h err acc y)
  show ?case
  proof (cases err)
    case nil
    with 1(2) show ?thesis by (simp add: WalkChain_nil)
  next
    case (Ptr a)
    from 1(2) Ptr obtain t where t: "Error Format h a = Some t"
      and rest: "(if has_Unwrap (h a) then Walk' Format h (Unwrap (h a)) (acc @ [t])
                  else Some (acc @ [t])) = Some y"
      by (auto simp: bind_eq_Some_conv)
    show ?thesis
    proof (cases "has_Unwrap (h a)")
      case True
      with rest have "Walk' Format h (Unwrap (h a)) (acc @ [t]) = Some y" by simp
      from 1(1) [OF this] obtain r' where y: "y = (acc @ [t]) @ r'"
        and all: "\<forall>acc'. WalkChain Format h (Unwrap (h a)) acc' = Some (acc' @ r')"
        by blast
      have "\<forall>acc'. WalkChain Format h err acc' = Some (acc' @ t # r')"
        using all t True Ptr by (simp add: WalkChain_Ptr)
      with y show ?thesis by (intro exI [of _ "t # r'"]) simp
    next
      case False
      with rest have y: "y = acc @ [t]" by simp
      have "\<forall>acc'. WalkChain Format h err acc' = Some (acc' @ [t])"
        using t False Ptr by (simp add: WalkChain_Ptr)
      with y show ?thesis by (intro exI [of _ "[t]"]) simp
    qed
  qed
qed

lemma WalkChain_acc:
  "WalkChain Format h err [] = Some r \<Longrightarrow> WalkChain Format h err acc = Some (acc @ r)"
  using WalkChain_acc_aux [of Format h err "[]" r] by simp

lemma WalkChain_hd:
  assumes "WalkChain Format h err [] = Some ls" and "err \<noteq> nil"
  shows "ls \<noteq> [] \<and> fmt_v Format h err = Some (hd ls)"
proof -
  from assms(2) obtain a where a: "err = Ptr a" by (cases err) simp_all
  from assms(1) a have "Option.bind (Error Format h a)
       (\<lambda>t. if has_Unwrap (h a) then WalkChain Format h (Unwrap (h a)) ([] @ [t])
             else Some ([] @ [t])) = Some ls"
    by (simp only: WalkChain_Ptr)
  then obtain t where t: "Error Format h a = Some t"
    and rest: "(if has_Unwrap (h a) then WalkChain Format h (Unwrap (h a)) ([] @ [t])
                else Some ([] @ [t])) = Some ls"
    unfolding bind_eq_Some_conv by blast
  have "\<exists>r. ls = t # r"
  proof (cases "has_Unwrap (h a)")
    case True
    with rest have "WalkChain Format h (Unwrap (h a)) ([] @ [t]) = Some ls" by simp
    from WalkChain_acc_aux [OF this] show ?thesis by auto
  next
    case False
    with rest show ?thesis by auto
  qed
  with t a show ?thesis by (auto simp: fmt_v_def)
qed

lemma wrap_layers_walk:
  assumes "closed s" and "below (nextAddr s) err" and "err \<noteq> nil"
    and "WalkChain Format (heap s) err [] = Some ls"
  shows "\<exists>err' s'. wrap_layers Format cs err s = Some (err', s')
      \<and> err' \<noteq> nil
      \<and> WalkChain Format (heap s') err' [] = Some (layer_texts cs (hd ls) @ ls)"
  using assms
proof (induction cs arbitrary: err s ls)
  case Nil
  then show ?case by simp
next
  case (Cons c cs)
  from WalkChain_hd [OF Cons.prems(4,3)]
  have ne: "ls \<noteq> []" and t: "fmt_v Format (heap s) err = Some (hd ls)" by simp_all
  let ?t = "hd ls"
  let ?ob = "wrapError (c @ ?t) err"
  let ?s1 = "snd (new ?ob s)"
  let ?e1 = "Ptr (nextAddr s)"
  have w: "fmt_Errorf_w Format c err s = Some (?e1, ?s1)"
    using t by (rule fmt_Errorf_w_Some)
  have cl1: "closed ?s1"
    using Cons.prems(1,2) by (intro closed_new) simp_all
  have n1: "nextAddr ?s1 = Suc (nextAddr s)" by (simp add: new_def)
  have ob1: "heap ?s1 (nextAddr s) = ?ob" by (simp add: new_def)
  have b1: "below (nextAddr ?s1) ?e1" by (simp add: below_def n1)
  from WalkChain_frame [OF Cons.prems(1,2,4)]
  have "WalkChain Format (heap ?s1) err [] = Some ls" .
  then have "WalkChain Format (heap ?s1) err [c @ ?t] = Some ([c @ ?t] @ ls)"
    by (rule WalkChain_acc)
  with ob1 have w1: "WalkChain Format (heap ?s1) ?e1 [] = Some ((c @ ?t) # ls)"
    by (simp add: WalkChain_Ptr Error_wrapError)
  from Cons.IH [OF cl1 b1 _ w1] obtain err' s' where
    r: "wrap_layers Format cs ?e1 ?s1 = Some (err', s')"
    and d: "err' \<noteq> nil"
    and k: "WalkChain Format (heap s') err' [] = Some (layer_texts cs (c @ ?t) @ (c @ ?t) # ls)"
    by auto
  from w r d k show ?case by simp
qed


lemma ProcessUserData_layers:
  "ReadFile (''user_'' @ fmt_d userID @ ''.json'') \<noteq> nil \<Longrightarrow>
   ProcessUserData Format ReadFile userID s =
     wrap_layers Format
       [''failed to read config file '' @ (''user_'' @ fmt_d userID @ ''.json'') @ '': '',
        ''failed to load config for user '' @ fmt_d userID @ '': '',
        ''failed to process user '' @ fmt_d userID @ '': '']
       (ReadFile (''user_'' @ fmt_d userID @ ''.json'')) s"
  by (auto simp: ProcessUserData_def loadUserConfig_def readConfigFile_def Let_def
      fmt_Errorf_w_def new_def split: Option.bind_splits)

text \<open>
  C5 (as amended). In a state of the running program with no reference to unallocated
  memory: the walk of a leaf error wrapped twice yields exactly three levels, outermost
  first, the last being the text of the leaf. \<^verbatim>\<open>ProcessUserData\<close> puts three layers around
  the error of \<^verbatim>\<open>os.ReadFile\<close>, so when that error is not nil and its own walk yields the
  levels \<open>ls\<close>, the walk of the error \<^verbatim>\<open>ProcessUserData\<close> returns yields the three layer
  messages, outermost first, followed by \<open>ls\<close>: \<open>3 + length ls\<close> levels, at least four,
  the last being the last of \<open>ls\<close>.
\<close>

theorem ProcessUserData_walk:
  assumes "closed s"
  shows "(a < nextAddr s \<and> \<not> has_Unwrap (heap s a) \<and> Error Format (heap s) a = Some t \<longrightarrow>
       (\<exists>err s'. wrap_layers Format [c1, c2] (Ptr a) s = Some (err, s')
          \<and> WalkChain Format (heap s') err [] = Some [c2 @ c1 @ t, c1 @ t, t]))
    \<and> (ReadFile (''user_'' @ fmt_d userID @ ''.json'') = oserr \<and> oserr \<noteq> nil
        \<and> below (nextAddr s) oserr \<and> WalkChain Format (heap s) oserr [] = Some ls \<longrightarrow>
       (\<exists>err s' m1 m2 m3.
          ProcessUserData Format ReadFile userID s = Some (err, s') \<and> err \<noteq> nil
          \<and> ls \<noteq> []
          \<and> m3 = ''failed to read config file user_'' @ fmt_d userID @ ''.json: '' @ hd ls
          \<and> m2 = ''failed to load config for user '' @ fmt_d userID @ '': '' @ m3
          \<and> m1 = ''failed to process user '' @ fmt_d userID @ '': '' @ m2
          \<and> WalkChain Format (heap s') err [] = Some ([m1, m2, m3] @ ls)
          \<and> length ([m1, m2, m3] @ ls) = 3 + length ls
          \<and> last ([m1, m2, m3] @ ls) = last ls))"
proof (intro conjI impI)
  assume "a < nextAddr s \<and> \<not> has_Unwrap (heap s a) \<and> Error Format (heap s) a = Some t"
  then have b: "below (nextAddr s) (Ptr a)"
    and w: "WalkChain Format (heap s) (Ptr a) [] = Some [t]"
    by (simp_all add: below_def WalkChain_Ptr)
  from wrap_layers_walk [OF assms b _ w, of "[c1, c2]"]
  show "\<exists>err s'. wrap_layers Format [c1, c2] (Ptr a) s = Some (err, s')
          \<and> WalkChain Format (heap s') err [] = Some [c2 @ c1 @ t, c1 @ t, t]"
    by auto
next
  assume h: "ReadFile (''user_'' @ fmt_d userID @ ''.json'') = oserr \<and> oserr \<noteq> nil
        \<and> below (nextAddr s) oserr \<and> WalkChain Format (heap s) oserr [] = Some ls"
  then have ne: "ls \<noteq> []" using WalkChain_hd [of Format "heap s" oserr ls] by simp
  from h have p: "ProcessUserData Format ReadFile userID s =
     wrap_layers Format
       [''failed to read config file '' @ (''user_'' @ fmt_d userID @ ''.json'') @ '': '',
        ''failed to load config for user '' @ fmt_d userID @ '': '',
        ''failed to process user '' @ fmt_d userID @ '': ''] oserr s"
    using ProcessUserData_layers [of ReadFile userID Format s] by simp
  from h wrap_layers_walk [OF assms, of oserr Format ls
      "[''failed to read config file '' @ (''user_'' @ fmt_d userID @ ''.json'') @ '': '',
        ''failed to load config for user '' @ fmt_d userID @ '': '',
        ''failed to process user '' @ fmt_d userID @ '': '']"]
  obtain err s' where
    w: "wrap_layers Format
       [''failed to read config file '' @ (''user_'' @ fmt_d userID @ ''.json'') @ '': '',
        ''failed to load config for user '' @ fmt_d userID @ '': '',
        ''failed to process user '' @ fmt_d userID @ '': ''] oserr s = Some (err, s')"
    and n: "err \<noteq> nil"
    and k: "WalkChain Format (heap s') err [] =
      Some (layer_texts
       [''failed to read config file '' @ (''user_'' @ fmt_d userID @ ''.json'') @ '': '',
        ''failed to load config for user '' @ fmt_d userID @ '': '',
        ''failed to process user '' @ fmt_d userID @ '': ''] (hd ls) @ ls)"
    by blast
  from p w n k ne
  show "\<exists>err s' m1 m2 m3.
          ProcessUserData Format ReadFile userID s = Some (err, s') \<and> err \<noteq> nil
          \<and> ls \<noteq> []
          \<and> m3 = ''failed to read config file user_'' @ fmt_d userID @ ''.json: '' @ hd ls
          \<and> m2 = ''failed to load config for user '' @ fmt_d userID @ '': '' @ m3
          \<and> m1 = ''failed to process user '' @ fmt_d userID @ '': '' @ m2
          \<and> WalkChain Format (heap s') err [] = Some ([m1, m2, m3] @ ls)
          \<and> length ([m1, m2, m3] @ ls) = 3 + length ls
          \<and> last ([m1, m2, m3] @ ls) = last ls"
    by simp
qed

lemma ex_leaf_facts:
  "nextAddr ex_leaf_state = 6"
  "heap ex_leaf_state 5 = errorString ''open user_999.json: no such file or directory''"
  "closed ex_leaf_state"
  by (simp_all add: ex_defs closed_def below_def)

lemma fmt_d_999: "fmt_d 999 = ''999''"
  by (simp add: fmt_d_def decimal.simps)

theorem ProcessUserData_walk_counterexample:
  "ProcessUserData ex_Format ex_leaf_ReadFile 999 ex_leaf_state = Some ex_processed
   \<and> heap ex_leaf_state 5 = errorString ''open user_999.json: no such file or directory''
   \<and> Unwramp (heap ex_leaf_state) (Ptr 5) = nil
   \<and> WalkChain ex_Format (heap (snd ex_processed)) (fst ex_processed) [] =
       Some [''failed to process user 999: failed to load config for user 999: failed to read config file user_999.json: open user_999.json: no such file or directory'',
             ''failed to load config for user 999: failed to read config file user_999.json: open user_999.json: no such file or directory'',
             ''failed to read config file user_999.json: open user_999.json: no such file or directory'',
             ''open user_999.json: no such file or directory'']
   \<and> map_option length (WalkChain ex_Format (heap (snd ex_processed)) (fst ex_processed) [])
       \<noteq> Some 3"
proof -
  have p: "ProcessUserData ex_Format ex_leaf_ReadFile 999 ex_leaf_state =
    Some (Ptr 8,
      snd (new (wrapError ''failed to process user 999: failed to load config for user 999: failed to read config file user_999.json: open user_999.json: no such file or directory'' (Ptr 7))
       (snd (new (wrapError ''failed to load config for user 999: failed to read config file user_999.json: open user_999.json: no such file or directory'' (Ptr 6))
        (snd (new (wrapError ''failed to read config file user_999.json: open user_999.json: no such file or directory'' (Ptr 5)) ex_leaf_state))))))"
    using ex_leaf_facts(1,2)
    by (simp add: ProcessUserData_def loadUserConfig_def readConfigFile_def Let_def
        fmt_Errorf_w_def fmt_v_def Error_errorString Error_wrapError new_def
        ex_leaf_ReadFile_def fmt_d_999)
  show ?thesis
    using ex_leaf_facts(1,2)
    by (simp add: ex_processed_def p new_def WalkChain_Ptr WalkChain_nil Error_errorString
        Error_wrapError Unwramp_def)
qed


theorem ProcessUserData_walk_witness:
  "closed ex_os_state
   \<and> WalkChain ex_Format (heap ex_os_state) (Ptr 6) [] =
       Some [''open user_999.json: no such file or directory'', ''no such file or directory'']
   \<and> (\<exists>err s'. ProcessUserData ex_Format ex_os_ReadFile 999 ex_os_state = Some (err, s')
        \<and> WalkChain ex_Format (heap s') err [] =
            Some [''failed to process user 999: failed to load config for user 999: failed to read config file user_999.json: open user_999.json: no such file or directory'',
                  ''failed to load config for user 999: failed to read config file user_999.json: open user_999.json: no such file or directory'',
                  ''failed to read config file user_999.json: open user_999.json: no such file or directory'',
                  ''open user_999.json: no such file or directory'',
                  ''no such file or directory''])
   \<and> (\<exists>err s'. wrap_layers ex_Format [''middle: '', ''outer: ''] (Ptr 5) ex_os_state
                   = Some (err, s')
        \<and> WalkChain ex_Format (heap s') err [] =
            Some [''outer: middle: no such file or directory'',
                  ''middle: no such file or directory'', ''no such file or directory''])"
proof -
  have n: "nextAddr ex_os_state = 7"
    and o5: "heap ex_os_state 5 = errorString ''no such file or directory''"
    and o6: "heap ex_os_state 6 =
      wrapError ''open user_999.json: no such file or directory'' (Ptr 5)"
    and c: "closed ex_os_state"
    by (simp_all add: ex_defs closed_def below_def)
  have w: "WalkChain ex_Format (heap ex_os_state) (Ptr 6) [] =
       Some [''open user_999.json: no such file or directory'', ''no such file or directory'']"
    using o5 o6 by (simp add: WalkChain_Ptr WalkChain_nil Error_errorString Error_wrapError)
  have e5: "Error ex_Format (heap ex_os_state) 5 = Some ''no such file or directory''"
    using o5 by (simp add: Error_errorString)
  from ProcessUserData_walk [OF c, where a = 5 and Format = ex_Format
      and t = "''no such file or directory''" and ?c1.0 = "''middle: ''"
      and ?c2.0 = "''outer: ''" and ReadFile = ex_os_ReadFile and userID = 999
      and oserr = "Ptr 6"
      and ls = "[''open user_999.json: no such file or directory'',
                 ''no such file or directory'']"]
    n o5 e5 w
  have "(\<exists>err s'. wrap_layers ex_Format [''middle: '', ''outer: ''] (Ptr 5) ex_os_state
                   = Some (err, s')
        \<and> WalkChain ex_Format (heap s') err [] =
            Some [''outer: middle: no such file or directory'',
                  ''middle: no such file or directory'', ''no such file or directory''])
    \<and> (\<exists>err s'. ProcessUserData ex_Format ex_os_ReadFile 999 ex_os_state = Some (err, s')
        \<and> WalkChain ex_Format (heap s') err [] =
            Some [''failed to process user 999: failed to load config for user 999: failed to read config file user_999.json: open user_999.json: no such file or directory'',
                  ''failed to load config for user 999: failed to read config file user_999.json: open user_999.json: no such file or directory'',
                  ''failed to read config file user_999.json: open user_999.json: no such file or directory'',
                  ''open user_999.json: no such file or directory'',
                  ''no such file or directory''])"
    by (auto simp add: ex_os_ReadFile_def below_def fmt_d_999 simp del: wrap_layers.simps)
  with c w show ?thesis by simp
qed

section \<open>Termination of the traversals\<close>

lemma Unwramp_funpow_nil: "(Unwramp h ^^ k) nil = nil"
  by (induction k) (simp_all add: Unwramp_def)

lemma Error_terminates:
  "(Unwramp h ^^ k) (Ptr a) = nil \<Longrightarrow> \<exists>t. Error Format h a = Some t"
proof (induction k arbitrary: a)
  case 0
  then show ?case by simp
next
  case (Suc k)
  show ?case
  proof (cases "h a")
    case (DatabaseErrorObj e)
    show ?thesis
    proof (cases "Err e")
      case nil
      with DatabaseErrorObj show ?thesis
        by (simp add: Error_DatabaseError fmt_v_def)
    next
      case (Ptr b)
      with Suc.prems DatabaseErrorObj have "(Unwramp h ^^ k) (Ptr b) = nil"
        by (simp add: funpow_swap1 Unwramp_Ptr DatabaseError_Unwrap_def)
      from Suc.IH [OF this] Ptr DatabaseErrorObj show ?thesis
        by (auto simp: Error_DatabaseError fmt_v_def)
    qed
  qed (simp_all add: Error_errorString Error_wrapError Error_ValidationError)
qed

lemma WalkChain_terminates:
  "(Unwramp h ^^ k) err = nil \<Longrightarrow> \<exists>ls. WalkChain Format h err acc = Some ls"
proof (induction k arbitrary: err acc)
  case 0
  then show ?case by (simp add: WalkChain_nil)
next
  case (Suc k)
  show ?case
  proof (cases err)
    case nil
    then show ?thesis by (simp add: WalkChain_nil)
  next
    case (Ptr a)
    with Suc.prems Error_terminates [where h = h and k = "Suc k" and a = a and Format = Format]
    obtain t where t: "Error Format h a = Some t" by auto
    show ?thesis
    proof (cases "has_Unwrap (h a)")
      case True
      with Suc.prems Ptr have "(Unwramp h ^^ k) (Unwrap (h a)) = nil"
        by (simp add: funpow_swap1 Unwramp_Ptr)
      from Suc.IH [OF this, of "acc @ [t]"] True t Ptr show ?thesis
        by (simp add: WalkChain_Ptr)
    next
      case False
      with t Ptr show ?thesis by (simp add: WalkChain_Ptr)
    qed
  qed
qed

lemma chain_has_terminates:
  "(Unwramp h ^^ k) err = nil \<Longrightarrow> \<exists>b. chain_has h err target = Some b"
proof (induction k arbitrary: err)
  case 0
  then show ?case by (subst chain_has.simps) auto
next
  case (Suc k)
  show ?case
  proof (cases "err = target")
    case True
    then show ?thesis by (auto simp: chain_has_self)
  next
    case ne: False
    show ?thesis
    proof (cases err)
      case nil
      with ne show ?thesis by (subst chain_has.simps) auto
    next
      case (Ptr a)
      show ?thesis
      proof (cases "has_Unwrap (h a)")
        case True
        with Suc.prems Ptr have "(Unwramp h ^^ k) (Unwrap (h a)) = nil"
          by (simp add: funpow_swap1 Unwramp_Ptr)
        from Suc.IH [OF this] True ne Ptr show ?thesis
          by (simp add: chain_has_step)
      next
        case False
        with ne Ptr show ?thesis by (auto simp: chain_has_leaf)
      qed
    qed
  qed
qed

lemma ErrorChain_depth_bound:
  "depth \<le> 10 \<Longrightarrow>
   fst (ErrorChain_depth h err depth) \<le> 11
   \<and> snd (ErrorChain_depth h err depth) = ((Unwramp h ^^ (10 - depth)) err \<noteq> nil)
   \<and> (snd (ErrorChain_depth h err depth) \<longrightarrow> fst (ErrorChain_depth h err depth) = 11)"
proof (induction h err depth rule: ErrorChain_depth.induct)
  case (1 h depth)
  then show ?case by (simp add: Unwramp_funpow_nil)
next
  case (2 h a depth)
  show ?case
  proof (cases "depth = 10")
    case True
    then show ?thesis by simp
  next
    case False
    with "2.prems" have d: "depth < 10" by simp
    then obtain m where m: "10 - depth = Suc m" and m': "10 - (depth + 1) = m"
      by (cases "10 - depth") simp_all
    show ?thesis
    proof (cases "has_Unwrap (h a)")
      case True
      with "2.IH" d m' have "fst (ErrorChain_depth h (Unwrap (h a)) (depth + 1)) \<le> 11
        \<and> snd (ErrorChain_depth h (Unwrap (h a)) (depth + 1))
            = ((Unwramp h ^^ m) (Unwrap (h a)) \<noteq> nil)
        \<and> (snd (ErrorChain_depth h (Unwrap (h a)) (depth + 1)) \<longrightarrow>
             fst (ErrorChain_depth h (Unwrap (h a)) (depth + 1)) = 11)"
        by simp
      with True d m show ?thesis
        by (simp add: funpow_swap1 Unwramp_Ptr)
    next
      case False
      with d m show ?thesis
        by (simp add: funpow_swap1 Unwramp_Ptr Unwramp_funpow_nil)
    qed
  qed
qed

lemma Error_cyclic: "Error Format ex_cyclic 0 = None"
proof (rule ccontr)
  assume "Error Format ex_cyclic 0 \<noteq> None"
  then obtain t where res: "Error Format ex_cyclic 0 = Some t" by auto
  have "ex_cyclic = ex_cyclic \<longrightarrow> (0::nat) \<noteq> 0"
  proof (rule Error.raw_induct [where P = "\<lambda>Format h a t. h = ex_cyclic \<longrightarrow> a \<noteq> 0",
        OF _ res], goal_cases)
    case (1 Error' Format h a y)
    show ?case
    proof (intro impI notI)
      assume h: "h = ex_cyclic" and a: "a = 0"
      with 1(2) obtain t' where "Error' Format ex_cyclic 0 = Some t'"
        by (auto simp: ex_cyclic_def bind_eq_Some_conv)
      from 1(1) [OF this] show False by simp
    qed
  qed
  then show False by simp
qed

lemma chain_has_cyclic: "chain_has ex_cyclic (Ptr 0) (Ptr 1) = None"
proof (rule ccontr)
  assume "chain_has ex_cyclic (Ptr 0) (Ptr 1) \<noteq> None"
  then obtain r where res: "chain_has ex_cyclic (Ptr 0) (Ptr 1) = Some r" by auto
  have "\<not> (ex_cyclic = ex_cyclic \<and> Ptr 0 = Ptr 0 \<and> Ptr 1 = Ptr 1)"
  proof (rule chain_has.raw_induct [where P = "\<lambda>h err target r.
        \<not> (h = ex_cyclic \<and> err = Ptr 0 \<and> target = Ptr 1)", OF _ res], goal_cases)
    case (1 has' h err target y)
    show ?case
    proof
      assume "h = ex_cyclic \<and> err = Ptr 0 \<and> target = Ptr 1"
      with 1(2) have "has' ex_cyclic (Ptr 0) (Ptr 1) = Some y"
        by (simp add: ex_cyclic_def DatabaseError_Unwrap_def)
      from 1(1) [OF this] show False by simp
    qed
  qed
  then show False by simp
qed

theorem traversal_bound_counterexample:
  "ex_cyclic 0 =
     DatabaseErrorObj
       \<lparr>Operation = ''SELECT'', Table = ''users'', Query = [], Err = Ptr 0,
        Timestamp = ex_time, Retryable = True\<rparr>
   \<and> Unwramp ex_cyclic (Ptr 0) = Ptr 0
   \<and> WalkChain ex_Format ex_cyclic (Ptr 0) [] = None
   \<and> MatchesSentinel ex_cyclic (Ptr 0) (Ptr 1) = None
   \<and> ErrorChain_depth ex_cyclic (Ptr 0) 0 = (11, True)"
proof -
  have ob: "ex_cyclic 0 =
     DatabaseErrorObj
       \<lparr>Operation = ''SELECT'', Table = ''users'', Query = [], Err = Ptr 0,
        Timestamp = ex_time, Retryable = True\<rparr>"
    by (simp add: ex_cyclic_def)
  have u: "Unwrap (ex_cyclic 0) = Ptr 0" and hu: "has_Unwrap (ex_cyclic 0)"
    by (simp_all add: ob DatabaseError_Unwrap_def)
  have d: "ErrorChain_depth ex_cyclic (Ptr 0) 0 = (11, True)"
    by (simp add: u hu)
  have w: "WalkChain ex_Format ex_cyclic (Ptr 0) [] = None"
    by (subst WalkChain.simps) (simp add: Error_cyclic)
  have m: "MatchesSentinel ex_cyclic (Ptr 0) (Ptr 1) = None"
    using chain_has_cyclic by (simp add: MatchesSentinel_def)
  show ?thesis
    using ob d w m by (simp add: Unwramp_def DatabaseError_Unwrap_def)
qed

text \<open>
  C6 (as amended). A traversal returns on every chain that ends: when some number of
  unwrapping steps leads from \<open>err\<close> to nil, the walk that collects the levels returns
  them and \<^verbatim>\<open>MatchesSentinel\<close> returns its answer. Only the depth-counting loop of
  \<^verbatim>\<open>TestProcessUserData_ErrorChain\<close> is bounded: on every input, a chain that runs into
  itself included, it stops with a depth of at most 11, and it reports its failure
  exactly when the chain has more than 10 elements, the depth then being 11.
\<close>

theorem traversal_bound:
  "((Unwramp h ^^ k) err = nil \<longrightarrow>
      (\<exists>ls. WalkChain Format h err acc = Some ls)
      \<and> (\<exists>b. MatchesSentinel h err target = Some b))
   \<and> fst (ErrorChain_depth h err 0) \<le> 11
   \<and> snd (ErrorChain_depth h err 0) = ((Unwramp h ^^ 10) err \<noteq> nil)
   \<and> (snd (ErrorChain_depth h err 0) \<longrightarrow> fst (ErrorChain_depth h err 0) = 11)"
proof -
  have "\<exists>b. MatchesSentinel h err target = Some b" if "(Unwramp h ^^ k) err = nil"
    using chain_has_terminates [OF that, of target] by (simp add: MatchesSentinel_def)
  with WalkChain_terminates [where h = h and k = k and err = err and Format = Format
      and acc = acc]
    ErrorChain_depth_bound [where depth = 0 and h = h and err = err]
  show ?thesis by simp
qed

theorem traversal_bound_witness:
  "(Unwramp (heap ex_os_state) ^^ 2) (Ptr 6) = nil
   \<and> (\<exists>ls. WalkChain ex_Format (heap ex_os_state) (Ptr 6) [] = Some ls)
   \<and> ErrorChain_depth (heap ex_os_state) (Ptr 6) 0 = (2, False)
   \<and> (Unwramp ex_cyclic ^^ 10) (Ptr 0) \<noteq> nil
   \<and> snd (ErrorChain_depth ex_cyclic (Ptr 0) 0)
   \<and> fst (ErrorChain_depth ex_cyclic (Ptr 0) 0) = 11"
proof -
  have o5: "heap ex_os_state 5 = errorString ''no such file or directory''"
    and o6: "heap ex_os_state 6 =
      wrapError ''open user_999.json: no such file or directory'' (Ptr 5)"
    by (simp_all add: ex_defs)
  have k: "(Unwramp (heap ex_os_state) ^^ 2) (Ptr 6) = nil"
    using o5 o6 by (simp add: numeral_2_eq_2 Unwramp_def)
  have d: "ErrorChain_depth (heap ex_os_state) (Ptr 6) 0 = (2, False)"
    using o5 o6 by simp
  have c: "(Unwramp ex_cyclic ^^ 10) (Ptr 0) \<noteq> nil"
    by (simp add: eval_nat_numeral Unwramp_def ex_cyclic_def DatabaseError_Unwrap_def)
  show ?thesis
    using k d c
      traversal_bound [where h = "heap ex_os_state" and k = 2 and err = "Ptr 6"
        and Format = ex_Format and acc = "[]" and target = "Ptr 0"]
      traversal_bound [where h = ex_cyclic and k = 0 and err = "Ptr 0"
        and Format = ex_Format and acc = "[]" and target = "Ptr 1"]
    by simp
qed

section \<open>The retry flag in the rendering\<close>

lemma strings_Contains_sublist: "strings_Contains s substr \<longleftrightarrow> sublist substr s"
  by (induction s) (simp_all add: sublist_Cons_right)

lemma strings_Contains_iff: "strings_Contains s substr \<longleftrightarrow> (\<exists>p q. s = p @ substr @ q)"
  by (simp add: strings_Contains_sublist sublist_def)

lemma render_flag_present:
  "strings_Contains
      (''database error ['' @ op @ '' on '' @ tb @ '']: '' @ t
        @ '' (retryable: '' @ fmt_bool b @ '', timestamp: '' @ ts @ '')'')
      (''retryable: '' @ fmt_bool b)"
proof -
  have "''database error ['' @ op @ '' on '' @ tb @ '']: '' @ t
        @ '' (retryable: '' @ fmt_bool b @ '', timestamp: '' @ ts @ '')''
      = (''database error ['' @ op @ '' on '' @ tb @ '']: '' @ t @ '' ('')
        @ (''retryable: '' @ fmt_bool b) @ ('', timestamp: '' @ ts @ '')'')"
    by simp
  then show ?thesis unfolding strings_Contains_iff by blast
qed

lemma sublist_split:
  assumes "c \<notin> set P" and "sublist P (A @ c # B)"
  shows "sublist P A \<or> sublist P B"
proof -
  from assms(2) consider "sublist P A" | "sublist P (c # B)"
    | P1 P2 where "P = P1 @ P2" "suffix P1 A" "prefix P2 (c # B)"
    unfolding sublist_append by blast
  then show ?thesis
  proof cases
    case 1
    then show ?thesis by simp
  next
    case 2
    with assms(1) show ?thesis
      by (cases P) (auto simp: sublist_Cons_right)
  next
    case 3
    show ?thesis
    proof (cases P2)
      case Nil
      with 3 show ?thesis by (auto intro: suffix_imp_sublist)
    next
      case (Cons x xs)
      with 3 assms(1) show ?thesis by auto
    qed
  qed
qed

lemma sublist_drop_hd:
  assumes "P \<noteq> []" and "hd P \<noteq> c" and "sublist P (c # B)"
  shows "sublist P B"
  using assms by (cases P) (auto simp: sublist_Cons_right)

lemma sublist_drop_last:
  assumes "P \<noteq> []" and "last P \<noteq> c" and "sublist P (A @ [c])"
  shows "sublist P A"
proof -
  from assms(3) consider "sublist P A" | "sublist P [c]"
    | P1 P2 where "P = P1 @ P2" "suffix P1 A" "prefix P2 [c]"
    unfolding sublist_append by blast
  then show ?thesis
  proof cases
    case 1
    then show ?thesis .
  next
    case 2
    with assms(1,2) show ?thesis
      by (cases P) (auto simp: sublist_Cons_right)
  next
    case 3
    show ?thesis
    proof (cases P2)
      case Nil
      with 3 show ?thesis by (auto intro: suffix_imp_sublist)
    next
      case (Cons x xs)
      with 3 have "P2 = [c]" by (cases xs) auto
      with 3 assms(2) show ?thesis by simp
    qed
  qed
qed

lemma sublist_embedded: "sublist P M \<Longrightarrow> sublist P (L @ M @ R)"
proof -
  assume "sublist P M"
  then obtain X Y where "M = X @ P @ Y" unfolding sublist_def by blast
  then have "L @ M @ R = (L @ X) @ P @ (Y @ R)" by simp
  then show ?thesis unfolding sublist_def by blast
qed


text \<open>
  Where a text of the shape of the two flag texts can occur in a rendering: only inside
  one of the four texts the rendering embeds. The pattern starts with \<open>r\<close>, ends with
  \<open>e\<close> and has none of the characters that fence the embedded texts.
\<close>

lemma render_occurrence:
  assumes ne: "P \<noteq> []" and hd: "hd P = CHR ''r''" and last: "last P = CHR ''e''"
    and c: "CHR ''['' \<notin> set P" "CHR ''o'' \<notin> set P" "CHR ''n'' \<notin> set P"
      "CHR '']'' \<notin> set P" "CHR ''('' \<notin> set P" "CHR '','' \<notin> set P"
      "CHR ''m'' \<notin> set P" "CHR ''p'' \<notin> set P" "CHR '')'' \<notin> set P"
    and n1: "\<not> sublist P ''database error ''"
    and n2: "\<not> sublist P (''retryable: '' @ fb)"
    and n3: "\<not> sublist P '' ti''"
    and n4: "\<not> sublist P ''esta''"
    and occ: "sublist P
      (''database error ['' @ op @ '' on '' @ tb @ '']: '' @ t
        @ '' (retryable: '' @ fb @ '', timestamp: '' @ ts @ '')'')"
  shows "sublist P op \<or> sublist P tb \<or> sublist P t \<or> sublist P ts"
proof (rule ccontr)
  assume "\<not> (sublist P op \<or> sublist P tb \<or> sublist P t \<or> sublist P ts)"
  then have no: "\<not> sublist P op" "\<not> sublist P tb" "\<not> sublist P t" "\<not> sublist P ts"
    by simp_all
  let ?R7 = "''retryable: '' @ fb @ '', timestamp: '' @ ts @ '')''"
  let ?R6 = "t @ '' ('' @ ?R7"
  let ?R4 = "tb @ '']: '' @ ?R6"
  let ?R1 = "op @ '' on '' @ ?R4"
  from occ have "sublist P (''database error '' @ CHR ''['' # ?R1)" by simp
  from sublist_split [OF c(1) this] n1 have "sublist P ?R1" by blast
  then have "sublist P ((op @ '' '') @ CHR ''o'' # (''n '' @ ?R4))" by simp
  from sublist_split [OF c(2) this] sublist_drop_last [OF ne, of "CHR '' ''" op] last no(1)
  have "sublist P (''n '' @ ?R4)" by auto
  then have "sublist P ([] @ CHR ''n'' # ('' '' @ ?R4))" by simp
  from sublist_split [OF c(3) this] ne have "sublist P (CHR '' '' # ?R4)" by auto
  from sublist_drop_hd [OF ne _ this] hd have "sublist P ?R4" by simp
  then have "sublist P (tb @ CHR '']'' # ('': '' @ ?R6))" by simp
  from sublist_split [OF c(4) this] no(2) have "sublist P (CHR '':'' # CHR '' '' # ?R6)"
    by auto
  from sublist_drop_hd [OF ne _ this] hd have "sublist P (CHR '' '' # ?R6)" by simp
  from sublist_drop_hd [OF ne _ this] hd have "sublist P ?R6" by simp
  then have "sublist P ((t @ '' '') @ CHR ''('' # ?R7)" by simp
  from sublist_split [OF c(5) this] sublist_drop_last [OF ne, of "CHR '' ''" t] last no(3)
  have "sublist P ?R7" by auto
  then have "sublist P ((''retryable: '' @ fb) @ CHR '','' # ('' timestamp: '' @ ts @ '')''))"
    by simp
  from sublist_split [OF c(6) this] n2 have "sublist P ('' timestamp: '' @ ts @ '')'')"
    by blast
  then have "sublist P ('' ti'' @ CHR ''m'' # (''estamp: '' @ ts @ '')''))" by simp
  from sublist_split [OF c(7) this] n3 have "sublist P (''estamp: '' @ ts @ '')'')" by blast
  then have "sublist P (''esta'' @ CHR ''m'' # (''p: '' @ ts @ '')''))" by simp
  from sublist_split [OF c(7) this] n4
  have "sublist P (CHR ''p'' # CHR '':'' # CHR '' '' # (ts @ '')''))" by auto
  from sublist_drop_hd [OF ne _ this] hd have "sublist P (CHR '':'' # CHR '' '' # (ts @ '')''))"
    by simp
  from sublist_drop_hd [OF ne _ this] hd have "sublist P (CHR '' '' # (ts @ '')''))" by simp
  from sublist_drop_hd [OF ne _ this] hd have "sublist P (ts @ CHR '')'' # [])" by simp
  from sublist_split [OF c(9) this] no(4) ne show False by auto
qed

lemma render_opposite:
  "strings_Contains
      (''database error ['' @ op @ '' on '' @ tb @ '']: '' @ t
        @ '' (retryable: '' @ fmt_bool b @ '', timestamp: '' @ ts @ '')'')
      (''retryable: '' @ fmt_bool (\<not> b))
   \<longleftrightarrow> strings_Contains op (''retryable: '' @ fmt_bool (\<not> b))
       \<or> strings_Contains tb (''retryable: '' @ fmt_bool (\<not> b))
       \<or> strings_Contains t (''retryable: '' @ fmt_bool (\<not> b))
       \<or> strings_Contains ts (''retryable: '' @ fmt_bool (\<not> b))"
  (is "strings_Contains ?r ?P \<longleftrightarrow> ?rhs")
proof
  assume "strings_Contains ?r ?P"
  then have occ: "sublist ?P ?r" by (simp only: strings_Contains_sublist)
  have "sublist ?P op \<or> sublist ?P tb \<or> sublist ?P t \<or> sublist ?P ts"
  proof (cases b)
    case True
    with occ show ?thesis
      by (intro render_occurrence [where fb = "''true''"])
        (simp_all add: fmt_bool_def strings_Contains_sublist [symmetric])
  next
    case False
    with occ show ?thesis
      by (intro render_occurrence [where fb = "''false''"])
        (simp_all add: fmt_bool_def strings_Contains_sublist [symmetric])
  qed
  then show ?rhs by (simp only: strings_Contains_sublist)
next
  assume ?rhs
  then have "sublist ?P op \<or> sublist ?P tb \<or> sublist ?P t \<or> sublist ?P ts"
    by (simp only: strings_Contains_sublist)
  then have "sublist ?P ?r"
  proof (elim disjE)
    assume "sublist ?P op"
    from sublist_embedded [OF this, of "''database error [''"] show ?thesis by simp
  next
    assume "sublist ?P tb"
    from sublist_embedded [OF this, of "''database error ['' @ op @ '' on ''"]
    show ?thesis by simp
  next
    assume "sublist ?P t"
    from sublist_embedded [OF this, of "''database error ['' @ op @ '' on '' @ tb @ '']: ''"]
    show ?thesis by simp
  next
    assume "sublist ?P ts"
    from sublist_embedded [OF this, of "''database error ['' @ op @ '' on '' @ tb @ '']: '' @ t
        @ '' (retryable: '' @ fmt_bool b @ '', timestamp: ''" "'')''"]
    show ?thesis by simp
  qed
  then show "strings_Contains ?r ?P" by (simp only: strings_Contains_sublist)
qed

theorem retryable_flag_counterexample:
  "heap ex_flag_state 6 =
     DatabaseErrorObj
       \<lparr>Operation = ''retryable: false'', Table = ''users'', Query = ''SELECT 1'',
        Err = Ptr 5, Timestamp = ''2023-10-05T10:30:00Z'', Retryable = True\<rparr>
   \<and> Error ex_Format (heap ex_flag_state) 6 =
       Some ''database error [retryable: false on users]: connection timeout (retryable: true, timestamp: 2023-10-05T10:30:00Z)''
   \<and> strings_Contains
        ''database error [retryable: false on users]: connection timeout (retryable: true, timestamp: 2023-10-05T10:30:00Z)''
        ''retryable: false''"
proof -
  have obj: "heap ex_flag_state 6 =
     DatabaseErrorObj
       \<lparr>Operation = ''retryable: false'', Table = ''users'', Query = ''SELECT 1'',
        Err = Ptr 5, Timestamp = ''2023-10-05T10:30:00Z'', Retryable = True\<rparr>"
    and c: "heap ex_flag_state 5 = errorString ''connection timeout''"
    by (simp_all add: ex_flag_state_def ex_defs)
  have r: "Error ex_Format (heap ex_flag_state) 6 =
       Some ''database error [retryable: false on users]: connection timeout (retryable: true, timestamp: 2023-10-05T10:30:00Z)''"
    using obj c
    by (simp add: Error_DatabaseError fmt_v_def Error_errorString DatabaseError_Sprintf_def
        fmt_bool_def ex_Format_def)
  have s: "strings_Contains
        ''database error [retryable: false on users]: connection timeout (retryable: true, timestamp: 2023-10-05T10:30:00Z)''
        ''retryable: false''"
    by simp
  from obj r s show ?thesis by simp
qed

text \<open>
  C8 (as amended). For both values of the flag, the rendering of a \<^verbatim>\<open>DatabaseError\<close>
  contains \<^verbatim>\<open>retryable: true\<close> when \<^verbatim>\<open>Retryable\<close> is true and \<^verbatim>\<open>retryable: false\<close> when it is
  false; and it contains the text of the opposite flag exactly when one of the texts the
  rendering embeds (\<^verbatim>\<open>Operation\<close>, \<^verbatim>\<open>Table\<close>, the text of \<^verbatim>\<open>Err\<close>, the formatted timestamp)
  contains it.
\<close>

theorem retryable_flag:
  assumes "h a = DatabaseErrorObj e" and "fmt_v Format h (Err e) = Some t"
  shows "\<exists>r. Error Format h a = Some r
      \<and> strings_Contains r (if Retryable e then ''retryable: true'' else ''retryable: false'')
      \<and> (strings_Contains r (if Retryable e then ''retryable: false'' else ''retryable: true'')
          \<longleftrightarrow>
            strings_Contains (Operation e)
              (if Retryable e then ''retryable: false'' else ''retryable: true'')
            \<or> strings_Contains (Table e)
              (if Retryable e then ''retryable: false'' else ''retryable: true'')
            \<or> strings_Contains t
              (if Retryable e then ''retryable: false'' else ''retryable: true'')
            \<or> strings_Contains (Format (Timestamp e) RFC3339)
              (if Retryable e then ''retryable: false'' else ''retryable: true''))"
proof -
  let ?r = "''database error ['' @ Operation e @ '' on '' @ Table e @ '']: '' @ t
        @ '' (retryable: '' @ fmt_bool (Retryable e) @ '', timestamp: ''
        @ Format (Timestamp e) RFC3339 @ '')''"
  have r: "Error Format h a = Some ?r"
    using assms by (simp add: Error_DatabaseError DatabaseError_Sprintf_def)
  have p: "strings_Contains ?r (''retryable: '' @ fmt_bool (Retryable e))"
    by (rule render_flag_present)
  note n = render_opposite [of "Operation e" "Table e" t "Retryable e"
      "Format (Timestamp e) RFC3339"]
  have f: "''retryable: '' @ fmt_bool (Retryable e)
      = (if Retryable e then ''retryable: true'' else ''retryable: false'')"
    "''retryable: '' @ fmt_bool (\<not> Retryable e)
      = (if Retryable e then ''retryable: false'' else ''retryable: true'')"
    by (simp_all add: fmt_bool_def)
  from r p n show ?thesis unfolding f by blast
qed

theorem retryable_flag_witness:
  "Error ex_Format (heap ex_query_state) 6 =
     Some ''database error [SELECT on users]: connection timeout (retryable: true, timestamp: 2023-10-05T10:30:00Z)''
   \<and> strings_Contains
        ''database error [SELECT on users]: connection timeout (retryable: true, timestamp: 2023-10-05T10:30:00Z)''
        ''retryable: true''
   \<and> \<not> strings_Contains
        ''database error [SELECT on users]: connection timeout (retryable: true, timestamp: 2023-10-05T10:30:00Z)''
        ''retryable: false''
   \<and> \<not> strings_Contains ''SELECT'' ''retryable: false''
   \<and> \<not> strings_Contains ''users'' ''retryable: false''
   \<and> \<not> strings_Contains ''connection timeout'' ''retryable: false''
   \<and> \<not> strings_Contains ''2023-10-05T10:30:00Z'' ''retryable: false''"
proof -
  let ?e = "\<lparr>Operation = ''SELECT'', Table = ''users'',
          Query = ''SELECT * FROM users LIMIT 10'', Err = Ptr 5,
          Timestamp = ''2023-10-05T10:30:00Z'', Retryable = True\<rparr>"
  have obj: "heap ex_query_state 6 = DatabaseErrorObj ?e"
    by (simp add: ex_defs fmt_d_def decimal.simps)
  have c: "heap ex_query_state 5 = errorString ''connection timeout''"
    by (simp add: ex_defs)
  have t: "fmt_v ex_Format (heap ex_query_state) (Err ?e) = Some ''connection timeout''"
    using c by (simp add: fmt_v_def Error_errorString)
  have r: "Error ex_Format (heap ex_query_state) 6 =
     Some ''database error [SELECT on users]: connection timeout (retryable: true, timestamp: 2023-10-05T10:30:00Z)''"
    using obj c
    by (simp add: Error_DatabaseError fmt_v_def Error_errorString DatabaseError_Sprintf_def
        fmt_bool_def ex_Format_def)
  from retryable_flag [OF obj t] r show ?thesis
    by (simp add: ex_Format_def)
qed

end
